theory Spec2Isabelle
  imports Complex_Main
begin

section \<open>JavaScript values and string helpers\<close>

text \<open>
  The server answers with \<^verbatim>\<open>res.status(n).json({...})\<close>. A JSON object literal is an
  association list in the order the source writes its keys; a column that may hold SQL
  NULL is an \<open>option\<close> and is sent as \<open>JNull\<close>.
\<close>

datatype json = JNull | JBool bool | JNum int | JStr string

definition jnum :: "int option \<Rightarrow> json" where
  "jnum v = (case v of None \<Rightarrow> JNull | Some n \<Rightarrow> JNum n)"

definition jbool :: "bool option \<Rightarrow> json" where
  "jbool v = (case v of None \<Rightarrow> JNull | Some b \<Rightarrow> JBool b)"

text \<open>
  \<^verbatim>\<open>String.prototype.toLowerCase\<close> on the ASCII range: the letters A to Z move
  to a to z, every other character stays. Strings are \<open>char list\<close>.
\<close>

definition toLowerCase_char :: "char \<Rightarrow> char" where
  "toLowerCase_char c =
     (case map_of (zip ''ABCDEFGHIJKLMNOPQRSTUVWXYZ'' ''abcdefghijklmnopqrstuvwxyz'') c of
        Some l \<Rightarrow> l
      | None \<Rightarrow> c)"

definition toLowerCase :: "string \<Rightarrow> string" where
  "toLowerCase s = map toLowerCase_char s"

text \<open>\<^verbatim>\<open>s.includes(sub)\<close>: \<open>sub\<close> occurs in \<open>s\<close> as a contiguous block.\<close>

fun str_includes :: "string \<Rightarrow> string \<Rightarrow> bool" where
  "str_includes [] sub = (sub = [])"
| "str_includes (c # cs) sub = (take (length sub) (c # cs) = sub \<or> str_includes cs sub)"

section \<open>Storage (server/storage.ts, server/db.ts)\<close>

text \<open>
  The columns of the \<^verbatim>\<open>users\<close> table that the modelled routes read or write. All three
  entitlement columns are nullable in the schema (they only have defaults), hence the
  \<open>option\<close>s. The remaining columns (email, names, Stripe ids, timestamps) are not read
  by any route below and are left out.
\<close>

record User =
  user_id :: string
  role :: "string option"
  freeDownloadsUsed :: "int option"
  hasActiveSubscription :: "bool option"

record QuoteDraft =
  quote_id :: string
  createdBy :: string

text \<open>
  Of \<^verbatim>\<open>quote_drafts\<close> and \<^verbatim>\<open>quote_items\<close> only the key columns and the owner are
  modelled: the routes below pass the other columns through unread.
\<close>

record QuoteItemRow =
  row_id :: string
  quoteDraftId :: string

text \<open>
  A value thrown by the database layer; \<open>message\<close> is \<^verbatim>\<open>error?.message\<close>, absent when
  the thrown value carries none.
\<close>

datatype thrown = Thrown (message: "string option")

text \<open>
  The database. \<open>db_failure = Some e\<close> is a database whose every access throws \<open>e\<close>:
  \<^verbatim>\<open>createStubDb\<close> in db.ts is this with the message \<open>DATABASE_URL_message\<close>.
\<close>

record storage =
  db_failure :: "thrown option"
  users :: "string \<rightharpoonup> User"
  quoteDrafts :: "string \<rightharpoonup> QuoteDraft"
  quoteItems :: "QuoteItemRow list"

definition DATABASE_URL_message :: string where
  "DATABASE_URL_message =
     ''DATABASE_URL is not set - database operations are disabled. Provide DATABASE_URL to enable persistence.''"

definition createStubDb :: "storage \<Rightarrow> storage" where
  "createStubDb st = st\<lparr>db_failure := Some (Thrown (Some DATABASE_URL_message))\<rparr>"

definition getUser :: "storage \<Rightarrow> string \<Rightarrow> thrown + User option" where
  "getUser st uid =
     (case db_failure st of Some e \<Rightarrow> Inl e | None \<Rightarrow> Inr (users st uid))"

definition getQuoteDraft :: "storage \<Rightarrow> string \<Rightarrow> thrown + QuoteDraft option" where
  "getQuoteDraft st qid =
     (case db_failure st of Some e \<Rightarrow> Inl e | None \<Rightarrow> Inr (quoteDrafts st qid))"

definition getQuoteItems :: "storage \<Rightarrow> string \<Rightarrow> thrown + QuoteItemRow list" where
  "getQuoteItems st qid =
     (case db_failure st of Some e \<Rightarrow> Inl e
      | None \<Rightarrow> Inr (filter (\<lambda>r. quoteDraftId r = qid) (quoteItems st)))"

text \<open>
  \<^verbatim>\<open>free_downloads_used\<close> is a 32-bit integer column. The database refuses a value
  outside its range: the statement throws and writes nothing. For the overflowing
  addition its message is \<^verbatim>\<open>integer out of range\<close>; for a value sent out of range its
  wording differs, which no route reads (the routes that write answer 500 to any error).
\<close>

definition int4 :: "int \<Rightarrow> bool" where
  "int4 n \<longleftrightarrow> - 2147483648 \<le> n \<and> n \<le> 2147483647"

definition out_of_range :: thrown where
  "out_of_range = Thrown (Some ''integer out of range'')"

text \<open>
  \<^verbatim>\<open>UPDATE users SET free_downloads_used = free_downloads_used + 1 WHERE id = userId
  RETURNING *\<close>: one statement, which the database runs atomically. NULL + 1 is NULL in
  SQL; an unknown id updates no row and returns none.
\<close>

definition incrementFreeDownloads :: "storage \<Rightarrow> string \<Rightarrow> thrown + storage \<times> User option" where
  "incrementFreeDownloads st uid =
     (case db_failure st of Some e \<Rightarrow> Inl e
      | None \<Rightarrow>
         (case users st uid of
            None \<Rightarrow> Inr (st, None)
          | Some u \<Rightarrow>
              if (case freeDownloadsUsed u of None \<Rightarrow> False | Some n \<Rightarrow> \<not> int4 (n + 1))
              then Inl out_of_range
              else
                (let u' = u\<lparr>freeDownloadsUsed := map_option (\<lambda>n. n + 1) (freeDownloadsUsed u)\<rparr>
                 in Inr (st\<lparr>users := (users st)(uid \<mapsto> u')\<rparr>, Some u'))))"

text \<open>
  \<^verbatim>\<open>updateUser(userId, data: Partial<User>)\<close> writes whatever columns \<open>data\<close> names. The
  model's \<open>data\<close> is a list of column assignments over the modelled columns, applied in
  order. A counter value outside the column's range makes the statement throw.
\<close>

datatype user_field =
    Set_role "string option"
  | Set_freeDownloadsUsed "int option"
  | Set_hasActiveSubscription "bool option"

fun set_user_field :: "User \<Rightarrow> user_field \<Rightarrow> User" where
  "set_user_field u (Set_role v) = u\<lparr>role := v\<rparr>"
| "set_user_field u (Set_freeDownloadsUsed v) = u\<lparr>freeDownloadsUsed := v\<rparr>"
| "set_user_field u (Set_hasActiveSubscription v) = u\<lparr>hasActiveSubscription := v\<rparr>"

fun fits_column :: "user_field \<Rightarrow> bool" where
  "fits_column (Set_freeDownloadsUsed (Some n)) = int4 n"
| "fits_column _ = True"

definition updateUser :: "storage \<Rightarrow> string \<Rightarrow> user_field list \<Rightarrow> thrown + storage \<times> User option" where
  "updateUser st uid data =
     (case db_failure st of Some e \<Rightarrow> Inl e
      | None \<Rightarrow>
         if \<not> list_all fits_column data then Inl out_of_range
         else
           (case users st uid of
              None \<Rightarrow> Inr (st, None)
            | Some u \<Rightarrow>
                (let u' = foldl set_user_field u data
                 in Inr (st\<lparr>users := (users st)(uid \<mapsto> u')\<rparr>, Some u'))))"

section \<open>Routes (server/routes.ts)\<close>

text \<open>
  Every route below sits behind \<^verbatim>\<open>isAuthenticated\<close>, which leaves the session's claims in
  \<^verbatim>\<open>req.user.claims\<close>; a request is modelled from that point on.
\<close>

record claims =
  sub :: string
  claims_email :: string

datatype body =
    Obj "(string \<times> json) list"
  | QuoteBody QuoteDraft "QuoteItemRow list"
  | UserBody "User option"

record response =
  status :: nat
  body :: body

datatype gate = Next | Respond response

text \<open>\<^verbatim>\<open>(user.role || '')\<close>: NULL and the empty string both give the empty string.\<close>

definition role_or_empty :: "User \<Rightarrow> string" where
  "role_or_empty user = (case role user of None \<Rightarrow> [] | Some r \<Rightarrow> r)"

text \<open>\<^verbatim>\<open>(error?.message || '').toString()\<close>\<close>

definition error_msg :: "thrown \<Rightarrow> string" where
  "error_msg e = (case message e of None \<Rightarrow> [] | Some m \<Rightarrow> m)"

definition requireSubscriptionOrFreeTrial :: "storage \<Rightarrow> claims \<Rightarrow> gate" where
  "requireSubscriptionOrFreeTrial st c =
     (case getUser st (sub c) of
        Inl e \<Rightarrow>
          if str_includes (error_msg e) ''DATABASE_URL is not set'' then Next
          else Respond \<lparr>status = 500,
                 body = Obj [(''message'', JStr ''Failed to check subscription status'')]\<rparr>
      | Inr None \<Rightarrow>
          Respond \<lparr>status = 404, body = Obj [(''message'', JStr ''User not found'')]\<rparr>
      | Inr (Some user) \<Rightarrow>
          if toLowerCase (role_or_empty user) = ''admin'' then Next
          else if hasActiveSubscription user = Some True then Next
          else if freeDownloadsUsed user = Some 0 then Next
          else Respond \<lparr>status = 402,
                 body = Obj [(''message'', JStr ''Subscription required''),
                             (''code'', JStr ''SUBSCRIPTION_REQUIRED''),
                             (''freeDownloadsUsed'', jnum (freeDownloadsUsed user))]\<rparr>)"

text \<open>GET /api/check-pdf-access\<close>

definition check_pdf_access :: "storage \<Rightarrow> claims \<Rightarrow> response" where
  "check_pdf_access st c =
     (case getUser st (sub c) of
        Inl e \<Rightarrow>
          if str_includes (error_msg e) ''DATABASE_URL is not set''
          then \<lparr>status = 200,
                 body = Obj [(''canGenerate'', JBool True), (''hasActiveSubscription'', JBool True),
                             (''freeDownloadsUsed'', JNum 0), (''isFreeTrial'', JBool False)]\<rparr>
          else \<lparr>status = 500, body = Obj [(''message'', JStr ''Failed to check PDF access'')]\<rparr>
      | Inr None \<Rightarrow> \<lparr>status = 404, body = Obj [(''message'', JStr ''User not found'')]\<rparr>
      | Inr (Some user) \<Rightarrow>
          if toLowerCase (role_or_empty user) = ''admin''
          then \<lparr>status = 200,
                 body = Obj [(''canGenerate'', JBool True), (''hasActiveSubscription'', JBool True),
                             (''freeDownloadsUsed'', JNum 0), (''isFreeTrial'', JBool False)]\<rparr>
          else
            (let canGenerate =
                   (hasActiveSubscription user = Some True \<or> freeDownloadsUsed user = Some 0)
             in \<lparr>status = 200,
                  body = Obj [(''canGenerate'', JBool canGenerate),
                              (''hasActiveSubscription'', jbool (hasActiveSubscription user)),
                              (''freeDownloadsUsed'', jnum (freeDownloadsUsed user)),
                              (''isFreeTrial'',
                                 JBool (freeDownloadsUsed user = Some 0 \<and>
                                        hasActiveSubscription user \<noteq> Some True))]\<rparr>))"

text \<open>
  POST /api/track-pdf-download: the handler that runs once the gate has called
  \<^verbatim>\<open>next()\<close>, then the route as registered (gate, then handler).
\<close>

definition track_pdf_download_handler :: "storage \<Rightarrow> claims \<Rightarrow> storage \<times> response" where
  "track_pdf_download_handler st c =
     (let failed = \<lparr>status = 500, body = Obj [(''message'', JStr ''Failed to track PDF download'')]\<rparr>
      in case getUser st (sub c) of
           Inl e \<Rightarrow> (st, failed)
         | Inr None \<Rightarrow> (st, \<lparr>status = 404, body = Obj [(''message'', JStr ''User not found'')]\<rparr>)
         | Inr (Some user) \<Rightarrow>
             if hasActiveSubscription user \<noteq> Some True \<and> freeDownloadsUsed user = Some 0
             then (case incrementFreeDownloads st (sub c) of
                     Inl e \<Rightarrow> (st, failed)
                   | Inr (st', _) \<Rightarrow>
                       (st', \<lparr>status = 200,
                              body = Obj [(''success'', JBool True),
                                          (''message'', JStr ''Free trial used. Subscribe to continue generating PDFs.''),
                                          (''freeDownloadsUsed'', JNum 1)]\<rparr>))
             else (st, \<lparr>status = 200,
                        body = Obj [(''success'', JBool True),
                                    (''message'', JStr ''PDF generated successfully''),
                                    (''freeDownloadsUsed'', jnum (freeDownloadsUsed user))]\<rparr>))"

definition track_pdf_download :: "storage \<Rightarrow> claims \<Rightarrow> storage \<times> response" where
  "track_pdf_download st c =
     (case requireSubscriptionOrFreeTrial st c of
        Respond r \<Rightarrow> (st, r)
      | Next \<Rightarrow> track_pdf_download_handler st c)"

text \<open>
  \<^verbatim>\<open>user?.role !== 'admin'\<close>: strict comparison of the stored role, with no lowercasing;
  a missing user or a NULL role is not an admin.
\<close>

definition is_admin_strict :: "User option \<Rightarrow> bool" where
  "is_admin_strict user = (case user of None \<Rightarrow> False | Some u \<Rightarrow> role u = Some ''admin'')"

text \<open>GET /api/quotes/:id\<close>

definition get_quote :: "storage \<Rightarrow> claims \<Rightarrow> string \<Rightarrow> response" where
  "get_quote st c qid =
     (let failed = \<lparr>status = 500, body = Obj [(''message'', JStr ''Failed to fetch quote'')]\<rparr>
      in case getQuoteDraft st qid of
           Inl e \<Rightarrow> failed
         | Inr None \<Rightarrow> \<lparr>status = 404, body = Obj [(''message'', JStr ''Quote not found'')]\<rparr>
         | Inr (Some quote) \<Rightarrow>
             (case getUser st (sub c) of
                Inl e \<Rightarrow> failed
              | Inr user \<Rightarrow>
                  if \<not> is_admin_strict user \<and> createdBy quote \<noteq> claims_email c
                  then \<lparr>status = 403, body = Obj [(''message'', JStr ''Access denied'')]\<rparr>
                  else (case getQuoteItems st qid of
                          Inl e \<Rightarrow> failed
                        | Inr its \<Rightarrow> \<lparr>status = 200, body = QuoteBody quote its\<rparr>)))"

text \<open>
  PUT /api/admin/users/:id. The request body is the update after the route has deleted
  its \<^verbatim>\<open>id\<close>, \<^verbatim>\<open>createdAt\<close> and \<^verbatim>\<open>updatedAt\<close> keys; every other column passes through to
  \<^verbatim>\<open>updateUser\<close> as sent.
\<close>

definition admin_put_user :: "storage \<Rightarrow> claims \<Rightarrow> string \<Rightarrow> user_field list \<Rightarrow> storage \<times> response" where
  "admin_put_user st c uid updateData =
     (let failed = \<lparr>status = 500, body = Obj [(''message'', JStr ''Failed to update user'')]\<rparr>
      in case getUser st (sub c) of
           Inl e \<Rightarrow> (st, failed)
         | Inr adminUser \<Rightarrow>
             if \<not> is_admin_strict adminUser
             then (st, \<lparr>status = 403, body = Obj [(''message'', JStr ''Admin access required'')]\<rparr>)
             else (case updateUser st uid updateData of
                     Inl e \<Rightarrow> (st, failed)
                   | Inr (st', user) \<Rightarrow> (st', \<lparr>status = 200, body = UserBody user\<rparr>)))"

section \<open>Line items and totals (client/src/components)\<close>

text \<open>
  A JavaScript \<^verbatim>\<open>number\<close> is modelled as a real: the arithmetic below is the exact one,
  without the rounding of IEEE doubles and without NaN or the infinities. The editor
  never stores NaN in an item, since every input goes through
  \<^verbatim>\<open>parseFloat(...) || 0\<close> or \<^verbatim>\<open>parseInt(...) || 0\<close> first. The equations between
  the fields of an item and the totals are the expressions the code evaluates, so they
  are stated on this model; the comparison of total and subtotal, which an overflow
  decides, is stated on the numbers with overflow further down.

  The source's field \<^verbatim>\<open>total\<close> of an item is \<open>item_total\<close> here.
\<close>

record QuoteItem =
  description :: string
  unit_price :: real
  needed_quantity :: real
  owned_quantity :: real
  buy_quantity :: real
  item_total :: real

text \<open>\<^verbatim>\<open>x || 0\<close> on a number: zero is falsy and gives the right operand, which is zero.\<close>

definition or0 :: "real \<Rightarrow> real" where
  "or0 x = (if x = 0 then 0 else x)"

subsection \<open>ItemsList: addItem, removeItem, updateItem\<close>

definition addItem :: "QuoteItem list \<Rightarrow> QuoteItem list" where
  "addItem items =
     items @ [\<lparr>description = [], unit_price = 0, needed_quantity = 1, owned_quantity = 0,
               buy_quantity = 1, item_total = 0\<rparr>]"

text \<open>\<^verbatim>\<open>items.filter((_, i) => i !== index)\<close>\<close>

definition removeItem :: "nat \<Rightarrow> QuoteItem list \<Rightarrow> QuoteItem list" where
  "removeItem index items = map snd (filter (\<lambda>(i, _). i \<noteq> index) (enumerate 0 items))"

text \<open>
  \<^verbatim>\<open>updateItem(index, field, value)\<close> writes \<^verbatim>\<open>{ ...newItems[index], [field]: value }\<close>. The
  pair of field name and value is a \<open>field_value\<close>, one constructor for each field of the
  \<^verbatim>\<open>QuoteItem\<close> interface.
\<close>

datatype field_value =
    Description string
  | Unit_price real
  | Needed_quantity real
  | Owned_quantity real
  | Buy_quantity real
  | Total real

fun set_field :: "QuoteItem \<Rightarrow> field_value \<Rightarrow> QuoteItem" where
  "set_field item (Description v) = item\<lparr>description := v\<rparr>"
| "set_field item (Unit_price v) = item\<lparr>unit_price := v\<rparr>"
| "set_field item (Needed_quantity v) = item\<lparr>needed_quantity := v\<rparr>"
| "set_field item (Owned_quantity v) = item\<lparr>owned_quantity := v\<rparr>"
| "set_field item (Buy_quantity v) = item\<lparr>buy_quantity := v\<rparr>"
| "set_field item (Total v) = item\<lparr>item_total := v\<rparr>"

text \<open>
  \<^verbatim>\<open>field === 'needed_quantity' || field === 'owned_quantity' || field === 'unit_price'\<close>
\<close>

fun recomputes :: "field_value \<Rightarrow> bool" where
  "recomputes (Needed_quantity _) = True"
| "recomputes (Owned_quantity _) = True"
| "recomputes (Unit_price _) = True"
| "recomputes _ = False"

text \<open>
  The table calls \<^verbatim>\<open>updateItem\<close> with the index of a rendered row only. For an index past
  the end JavaScript would grow the array and store an object holding the one written
  field (and the two derived ones), its other fields undefined; the typed item of this
  model cannot hold that, and the result there is \<open>None\<close>.
\<close>

definition updateItem :: "nat \<Rightarrow> field_value \<Rightarrow> QuoteItem list \<Rightarrow> QuoteItem list option" where
  "updateItem index fv items =
     (if index < length items
      then
        (let item = set_field (items ! index) fv;
             item' =
               (if recomputes fv
                then
                  (let needed = or0 (needed_quantity item);
                       owned = or0 (owned_quantity item);
                       buyQty = max 0 (needed - owned)
                   in item\<lparr>buy_quantity := buyQty, item_total := buyQty * or0 (unit_price item)\<rparr>)
                else item)
         in Some (items[index := item']))
      else None)"

text \<open>
  The editing session: the editor starts a new quote with \<^verbatim>\<open>items: []\<close> and every change
  goes through one of the three callbacks. A row offers four inputs (description, price,
  needed, owned), so these are the fields \<^verbatim>\<open>updateItem\<close> is called with.
\<close>

datatype edit = AddItem | RemoveItem nat | UpdateItem nat field_value

fun apply_edit :: "QuoteItem list \<Rightarrow> edit \<Rightarrow> QuoteItem list option" where
  "apply_edit items AddItem = Some (addItem items)"
| "apply_edit items (RemoveItem index) = Some (removeItem index items)"
| "apply_edit items (UpdateItem index fv) = updateItem index fv items"

fun run_edits :: "QuoteItem list \<Rightarrow> edit list \<Rightarrow> QuoteItem list option" where
  "run_edits items [] = Some items"
| "run_edits items (e # es) =
     (case apply_edit items e of None \<Rightarrow> None | Some items' \<Rightarrow> run_edits items' es)"

fun row_input :: "edit \<Rightarrow> bool" where
  "row_input (UpdateItem _ (Buy_quantity _)) = False"
| "row_input (UpdateItem _ (Total _)) = False"
| "row_input _ = True"

text \<open>The derived fields of an item agree with its price and quantities.\<close>

definition derived_ok :: "QuoteItem \<Rightarrow> bool" where
  "derived_ok item \<longleftrightarrow>
     buy_quantity item = max 0 (needed_quantity item - owned_quantity item) \<and>
     item_total item = buy_quantity item * unit_price item"

text \<open>
  The body of the editing table: one placeholder row (\<^verbatim>\<open>Nenhum item adicionado...\<close>) when
  \<^verbatim>\<open>items.length === 0\<close>, else one row per item with its index, the item, \<^verbatim>\<open>economia\<close>
  and \<^verbatim>\<open>totalNecessario\<close>.
\<close>

datatype table_row = No_items_row | Item_row nat QuoteItem real real

definition ItemsList_rows :: "QuoteItem list \<Rightarrow> table_row list" where
  "ItemsList_rows items =
     (if length items = 0 then [No_items_row]
      else map (\<lambda>(index, item).
                  Item_row index item
                    (or0 (owned_quantity item) * or0 (unit_price item))
                    (or0 (needed_quantity item) * or0 (unit_price item)))
               (enumerate 0 items))"

subsection \<open>QuoteSummary and generateQuotePDF: subtotal, discount, total\<close>

text \<open>The three figures; the source's \<^verbatim>\<open>total\<close> is \<open>grand_total\<close> here.\<close>

record totals =
  subtotal :: real
  discountAmount :: real
  grand_total :: real

definition QuoteSummary :: "QuoteItem list \<Rightarrow> real \<Rightarrow> totals" where
  "QuoteSummary items discount =
     (let subtotal = foldl (\<lambda>sum item. sum + or0 (item_total item)) 0 items;
          discountAmount = (subtotal * discount) / 100;
          total = subtotal - discountAmount
      in \<lparr>subtotal = subtotal, discountAmount = discountAmount, grand_total = total\<rparr>)"

record Quote =
  code :: string
  title :: string
  client_name :: string
  client_email :: string
  items :: "QuoteItem list"
  discount :: real
  template_variant :: string
  quote_note :: "string option"

text \<open>The totals that \<^verbatim>\<open>generateQuotePDF\<close> computes and hands to the template.\<close>

definition generateQuotePDF_totals :: "Quote \<Rightarrow> totals" where
  "generateQuotePDF_totals quote =
     (let subtotal = foldl (\<lambda>sum item. sum + or0 (item_total item)) 0 (items quote);
          discountAmount = (subtotal * or0 (discount quote)) / 100;
          total = subtotal - discountAmount
      in \<lparr>subtotal = subtotal, discountAmount = discountAmount, grand_total = total\<rparr>)"

subsection \<open>The same totals with overflow\<close>

text \<open>
  Where a statement depends on a result staying finite, the totals are computed on
  numbers that can overflow: a \<open>number\<close> is a finite real, an infinity or NaN, and an
  operation whose exact result leaves the range of the doubles gives an infinity. The
  rounding of a result to the nearest double and the sign of zero are still not
  modelled. \<^verbatim>\<open>QuoteSummary\<close> reads only the \<^verbatim>\<open>total\<close> of each item, so it takes the
  list of these.
\<close>

datatype number = Finite real | PosInfinity | NegInfinity | NaN

text \<open>
  The largest double is \<open>2 ^ 1024 - 2 ^ 971\<close>; a result of magnitude
  \<open>2 ^ 1024 - 2 ^ 970\<close> or more rounds to an infinity.
\<close>

definition overflow_at :: real where
  "overflow_at = 2 ^ 1024 - 2 ^ 970"

definition overflow :: "real \<Rightarrow> number" where
  "overflow x =
     (if overflow_at \<le> x then PosInfinity
      else if x \<le> - overflow_at then NegInfinity
      else Finite x)"

fun js_neg :: "number \<Rightarrow> number" where
  "js_neg (Finite a) = Finite (- a)"
| "js_neg PosInfinity = NegInfinity"
| "js_neg NegInfinity = PosInfinity"
| "js_neg NaN = NaN"

fun js_add :: "number \<Rightarrow> number \<Rightarrow> number" where
  "js_add NaN _ = NaN"
| "js_add _ NaN = NaN"
| "js_add (Finite a) (Finite b) = overflow (a + b)"
| "js_add PosInfinity NegInfinity = NaN"
| "js_add NegInfinity PosInfinity = NaN"
| "js_add PosInfinity _ = PosInfinity"
| "js_add NegInfinity _ = NegInfinity"
| "js_add (Finite a) b = b"

definition js_sub :: "number \<Rightarrow> number \<Rightarrow> number" where
  "js_sub a b = js_add a (js_neg b)"

fun js_sign :: "number \<Rightarrow> real" where
  "js_sign (Finite a) = sgn a"
| "js_sign PosInfinity = 1"
| "js_sign NegInfinity = - 1"
| "js_sign NaN = 0"

fun js_mul :: "number \<Rightarrow> number \<Rightarrow> number" where
  "js_mul NaN _ = NaN"
| "js_mul _ NaN = NaN"
| "js_mul (Finite a) (Finite b) = overflow (a * b)"
| "js_mul a b =
     (if js_sign a * js_sign b = 0 then NaN
      else if js_sign a * js_sign b > 0 then PosInfinity
      else NegInfinity)"

text \<open>Division by the literal 100, which cannot overflow.\<close>

fun js_div_100 :: "number \<Rightarrow> number" where
  "js_div_100 (Finite a) = Finite (a / 100)"
| "js_div_100 a = a"

text \<open>\<^verbatim>\<open>x || 0\<close>: NaN and zero are falsy.\<close>

fun js_or0 :: "number \<Rightarrow> number" where
  "js_or0 NaN = Finite 0"
| "js_or0 a = a"

text \<open>\<^verbatim>\<open>a <= b\<close>, false whenever an operand is NaN.\<close>

fun js_le :: "number \<Rightarrow> number \<Rightarrow> bool" where
  "js_le NaN _ = False"
| "js_le _ NaN = False"
| "js_le (Finite a) (Finite b) = (a \<le> b)"
| "js_le NegInfinity _ = True"
| "js_le _ PosInfinity = True"
| "js_le _ _ = False"

record js_totals =
  js_subtotal :: number
  js_discountAmount :: number
  js_total :: number

definition QuoteSummary_js :: "number list \<Rightarrow> number \<Rightarrow> js_totals" where
  "QuoteSummary_js item_totals discountPercent =
     (let subtotal = foldl (\<lambda>sum t. js_add sum (js_or0 t)) (Finite 0) item_totals;
          discountAmount = js_div_100 (js_mul subtotal discountPercent);
          total = js_sub subtotal discountAmount
      in \<lparr>js_subtotal = subtotal, js_discountAmount = discountAmount, js_total = total\<rparr>)"

definition generateQuotePDF_totals_js :: "number list \<Rightarrow> number \<Rightarrow> js_totals" where
  "generateQuotePDF_totals_js item_totals discountPercent =
     (let subtotal = foldl (\<lambda>sum t. js_add sum (js_or0 t)) (Finite 0) item_totals;
          discountAmount = js_div_100 (js_mul subtotal (js_or0 discountPercent));
          total = js_sub subtotal discountAmount
      in \<lparr>js_subtotal = subtotal, js_discountAmount = discountAmount, js_total = total\<rparr>)"

text \<open>The totals of items whose fields are finite.\<close>

definition totals_of :: "QuoteItem list \<Rightarrow> number list" where
  "totals_of its = map (\<lambda>item. Finite (item_total item)) its"

text \<open>
  The discount as the specification words it, with the percentage clamped to the
  interval from 0 to 100.
\<close>

definition spec_clamp :: "real \<Rightarrow> real \<Rightarrow> real \<Rightarrow> real" where
  "spec_clamp x lo hi = max lo (min hi x)"

definition spec_discountAmount :: "real \<Rightarrow> real \<Rightarrow> real" where
  "spec_discountAmount sub_total discountPercent = sub_total * spec_clamp discountPercent 0 100 / 100"

section \<open>Document renderer (generateHTMLTemplate)\<close>

record palette =
  main :: string
  dark :: string
  light :: string
  bg :: string
  bg_grad :: string
  header_grad :: string
  text_color :: "string option"
  text_alt :: "string option"

text \<open>
  \<^verbatim>\<open>getTemplateColors\<close>: a \<^verbatim>\<open>switch\<close> on the variant with a \<^verbatim>\<open>default\<close> branch. Only
  \<^verbatim>\<open>variant_c\<close> has the two text colours (the source's \<^verbatim>\<open>text\<close> is \<open>text_color\<close>).
\<close>

definition getTemplateColors :: "string \<Rightarrow> palette" where
  "getTemplateColors variant =
     (if variant = ''variant_b'' then
        \<lparr>main = ''#7c3aed'', dark = ''#6b21a8'', light = ''#e9d5ff'', bg = ''#faf5ff'',
         bg_grad = ''linear-gradient(135deg, #faf5ff 0%, #f3e8ff 100%)'',
         header_grad = ''linear-gradient(135deg, #7c3aed 0%, #8b5cf6 100%)'',
         text_color = None, text_alt = None\<rparr>
      else if variant = ''variant_c'' then
        \<lparr>main = ''#c59d5f'', dark = ''#2d3748'', light = ''#4a5568'', bg = ''#2d3748'',
         bg_grad = ''#2d3748'',
         header_grad = ''linear-gradient(135deg, #4a5568 0%, #2d3748 100%)'',
         text_color = Some ''#f7fafc'', text_alt = Some ''#a0aec0''\<rparr>
      else if variant = ''variant_d'' then
        \<lparr>main = ''#047857'', dark = ''#065f46'', light = ''#d1fae5'', bg = ''#f0fdf4'',
         bg_grad = ''linear-gradient(135deg, #f0fdf4 0%, #d1fae5 100%)'',
         header_grad = ''linear-gradient(135deg, #059669 0%, #10b981 100%)'',
         text_color = None, text_alt = None\<rparr>
      else if variant = ''variant_e'' then
        \<lparr>main = ''#f97316'', dark = ''#1f2937'', light = ''#e5e7eb'', bg = ''#f9fafb'',
         bg_grad = ''#f9fafb'', header_grad = ''#1f2937'',
         text_color = None, text_alt = None\<rparr>
      else
        \<lparr>main = ''#2563eb'', dark = ''#1e40af'', light = ''#e0e7ff'', bg = ''#eff6ff'',
         bg_grad = ''linear-gradient(135deg, #eff6ff 0%, #dbeafe 100%)'',
         header_grad = ''linear-gradient(135deg, #2563eb 0%, #3b82f6 100%)'',
         text_color = None, text_alt = None\<rparr>)"

text \<open>
  The template is one template literal. Its output is modelled as the sequence of its
  pieces: \<open>Lit\<close> is text of the template itself, \<open>Str\<close> an interpolated string,
  \<open>Num x\<close> an interpolated number, and \<open>Money x\<close> stands for
  \<^verbatim>\<open>x.toLocaleString('pt-BR', { minimumFractionDigits: 2 })\<close>, whose digits the host
  produces. Two parts of the template are modelled, those that depend on the items and
  on the totals: the body of the items table and the summary block.
\<close>

datatype frag = Lit string | Str string | Num real | Money real

definition item_row :: "QuoteItem \<Rightarrow> frag list" where
  \<open>item_row item =
     (let economia = or0 (owned_quantity item) * or0 (unit_price item)
      in [Lit ''\<newline>                <tr>\<newline>                  <td class="item-desc">'',
          Str (description item),
          Lit ''</td>\<newline>                  <td class="text-right">R$ '',
          Money (or0 (unit_price item)),
          Lit ''</td>\<newline>                  <td class="text-right">'',
          Num (or0 (needed_quantity item)),
          Lit ''</td>\<newline>                  <td class="text-right" style="color: #f97316; font-weight: 600;">'',
          Num (or0 (owned_quantity item)),
          Lit ''</td>\<newline>                  <td class="text-right" style="color: #2563eb; font-weight: 600;">'',
          Num (or0 (buy_quantity item)),
          Lit ''</td>\<newline>                  <td class="text-right font-semibold text-green-600">\<newline>                    R$ '',
          Money (or0 (item_total item)),
          Lit ''\<newline>                    '']
         @ (if economia > 0
            then [Lit ''<br><small style="color: #6b7280;">Economia: R$ '',
                  Money economia,
                  Lit ''</small>'']
            else [])
         @ [Lit ''\<newline>                  </td>\<newline>                </tr>\<newline>              ''])\<close>

text \<open>\<^verbatim>\<open><tbody> ${quote.items.map(item => ...).join('')} </tbody>\<close>\<close>

definition items_tbody :: "Quote \<Rightarrow> frag list" where
  \<open>items_tbody quote =
     [Lit ''<tbody>\<newline>              '']
     @ concat (map item_row (items quote))
     @ [Lit ''\<newline>            </tbody>'']\<close>

definition summary_section :: "Quote \<Rightarrow> totals \<Rightarrow> frag list" where
  \<open>summary_section quote totals =
     [Lit ''<div class="summary-section">\<newline>          <div class="summary-row">\<newline>            <span>Subtotal:</span>\<newline>            <span>R$ '',
      Money (subtotal totals),
      Lit ''</span>\<newline>          </div>\<newline>          '']
     @ (if discount quote > 0
        then [Lit ''\<newline>          <div class="summary-row">\<newline>            <span>Desconto ('',
              Num (discount quote),
              Lit ''%):</span>\<newline>            <span style="color: #dc2626;">-R$ '',
              Money (discountAmount totals),
              Lit ''</span>\<newline>          </div>\<newline>          '']
        else [])
     @ [Lit ''\<newline>          <div class="summary-row total">\<newline>            <span>TOTAL:</span>\<newline>            <span class="total-value">R$ '',
        Money (grand_total totals),
        Lit ''</span>\<newline>          </div>\<newline>        </div>'']\<close>

text \<open>Whether a rendered piece of the template opens a table row.\<close>

fun opens_row :: "frag \<Rightarrow> bool" where
  "opens_row (Lit s) = str_includes s ''<tr''"
| "opens_row _ = False"

section \<open>The operations that reach the users table\<close>

text \<open>
  Besides the routes above, three more writers of the modelled columns: the login, the
  local admin login of replitAuth.ts (after its credential check: \<^verbatim>\<open>upsertUser\<close>, then
  \<^verbatim>\<open>role: 'admin'\<close> unless the row has it) and the Stripe webhook.
  (\<^verbatim>\<open>updateUserStripeInfo\<close> writes the Stripe id columns only.)
  \<^verbatim>\<open>updateSubscriptionStatus\<close> is the write of the webhook, which swallows a database
  error.
\<close>

definition updateSubscriptionStatus :: "storage \<Rightarrow> string \<Rightarrow> bool \<Rightarrow> thrown + storage \<times> User option" where
  "updateSubscriptionStatus st uid active =
     (case db_failure st of Some e \<Rightarrow> Inl e
      | None \<Rightarrow>
         (case users st uid of
            None \<Rightarrow> Inr (st, None)
          | Some u \<Rightarrow>
              (let u' = u\<lparr>hasActiveSubscription := Some active\<rparr>
               in Inr (st\<lparr>users := (users st)(uid \<mapsto> u')\<rparr>, Some u'))))"

text \<open>
  \<^verbatim>\<open>upsertUser\<close>, called at login with the id, e-mail, names and picture of the claims:
  a new id gets a row with the column defaults (\<^verbatim>\<open>role\<close> user, counter 0, no
  subscription); for a known id only those profile columns are rewritten, so the
  modelled columns stay. A clash on the unique e-mail, which throws and writes nothing,
  is not modelled.
\<close>

definition upsertUser :: "storage \<Rightarrow> string \<Rightarrow> thrown + storage \<times> User" where
  "upsertUser st uid =
     (case db_failure st of Some e \<Rightarrow> Inl e
      | None \<Rightarrow>
         (case users st uid of
            None \<Rightarrow>
              (let u = \<lparr>user_id = uid, role = Some ''user'', freeDownloadsUsed = Some 0,
                        hasActiveSubscription = Some False\<rparr>
               in Inr (st\<lparr>users := (users st)(uid \<mapsto> u)\<rparr>, u))
          | Some u \<Rightarrow> Inr (st, u)))"

text \<open>
  The operations that are one database statement, or reads followed by one write, are
  taken as one step each. Whenever their reads ran, none of them writes the counter of
  an existing row, except an admin update whose body names that column.
\<close>

datatype operation =
    Login string
  | Local_login
  | Check_pdf_access claims
  | Get_quote claims string
  | Admin_put_user claims string "user_field list"
  | Subscription_webhook string bool

fun apply_op :: "storage \<Rightarrow> operation \<Rightarrow> storage" where
  "apply_op st (Login uid) =
     (case upsertUser st uid of Inl e \<Rightarrow> st | Inr (st', _) \<Rightarrow> st')"
| "apply_op st Local_login =
     (case upsertUser st ''local-admin'' of
        Inl e \<Rightarrow> st
      | Inr (st1, _) \<Rightarrow>
          (case getUser st1 ''local-admin'' of
             Inr (Some userRecord) \<Rightarrow>
               if role userRecord \<noteq> Some ''admin''
               then (case updateUser st1 (user_id userRecord) [Set_role (Some ''admin'')] of
                       Inl e \<Rightarrow> st1
                     | Inr (st2, _) \<Rightarrow> st2)
               else st1
           | _ \<Rightarrow> st1))"
| "apply_op st (Check_pdf_access c) = st"
| "apply_op st (Get_quote c qid) = st"
| "apply_op st (Admin_put_user c uid updateData) = fst (admin_put_user st c uid updateData)"
| "apply_op st (Subscription_webhook uid active) =
     (case updateSubscriptionStatus st uid active of Inl e \<Rightarrow> st | Inr (st', _) \<Rightarrow> st')"

text \<open>An admin update that names the \<^verbatim>\<open>freeDownloadsUsed\<close> column.\<close>

fun sets_counter :: "user_field \<Rightarrow> bool" where
  "sets_counter (Set_freeDownloadsUsed _) = True"
| "sets_counter _ = False"

fun writes_counter :: "operation \<Rightarrow> bool" where
  "writes_counter (Admin_put_user _ _ updateData) = list_ex sets_counter updateData"
| "writes_counter _ = False"

subsection \<open>POST /api/track-pdf-download, one database call at a time\<close>

text \<open>
  The route awaits three database calls: the gate's \<^verbatim>\<open>getUser\<close>, the handler's
  \<^verbatim>\<open>getUser\<close> and \<^verbatim>\<open>incrementFreeDownloads\<close>, with no transaction around them, so other
  requests can run between them. A request in flight is at one of these calls or has
  answered; \<open>track_step\<close> runs its next call.
\<close>

datatype track_phase = At_gate | At_handler | At_increment | Done response

fun track_step :: "storage \<Rightarrow> claims \<Rightarrow> track_phase \<Rightarrow> storage \<times> track_phase" where
  "track_step st c At_gate =
     (case requireSubscriptionOrFreeTrial st c of
        Respond r \<Rightarrow> (st, Done r)
      | Next \<Rightarrow> (st, At_handler))"
| "track_step st c At_handler =
     (case getUser st (sub c) of
        Inl e \<Rightarrow>
          (st, Done \<lparr>status = 500, body = Obj [(''message'', JStr ''Failed to track PDF download'')]\<rparr>)
      | Inr None \<Rightarrow>
          (st, Done \<lparr>status = 404, body = Obj [(''message'', JStr ''User not found'')]\<rparr>)
      | Inr (Some user) \<Rightarrow>
          if hasActiveSubscription user \<noteq> Some True \<and> freeDownloadsUsed user = Some 0
          then (st, At_increment)
          else (st, Done \<lparr>status = 200,
                          body = Obj [(''success'', JBool True),
                                      (''message'', JStr ''PDF generated successfully''),
                                      (''freeDownloadsUsed'', jnum (freeDownloadsUsed user))]\<rparr>))"
| "track_step st c At_increment =
     (case incrementFreeDownloads st (sub c) of
        Inl e \<Rightarrow>
          (st, Done \<lparr>status = 500, body = Obj [(''message'', JStr ''Failed to track PDF download'')]\<rparr>)
      | Inr (st', _) \<Rightarrow>
          (st', Done \<lparr>status = 200,
                      body = Obj [(''success'', JBool True),
                                  (''message'', JStr ''Free trial used. Subscribe to continue generating PDFs.''),
                                  (''freeDownloadsUsed'', JNum 1)]\<rparr>))"
| "track_step st c (Done r) = (st, Done r)"

text \<open>A request that runs its three calls with nothing in between.\<close>

definition track_alone :: "storage \<Rightarrow> claims \<Rightarrow> storage \<times> track_phase" where
  "track_alone st c =
     (case track_step st c At_gate of
        (st1, p1) \<Rightarrow>
          (case track_step st1 c p1 of
             (st2, p2) \<Rightarrow> track_step st2 c p2))"

text \<open>
  The server: the database and the track requests in flight. An event starts a track
  request, lets the request at some position run its next database call, or is one of
  the other operations.
\<close>

record server =
  db :: storage
  in_flight :: "(claims \<times> track_phase) list"

datatype event = Begin_track claims | Advance nat | Atomic operation

fun server_step :: "server \<Rightarrow> event \<Rightarrow> server" where
  "server_step s (Begin_track c) = s\<lparr>in_flight := in_flight s @ [(c, At_gate)]\<rparr>"
| "server_step s (Advance i) =
     (if i < length (in_flight s)
      then
        (case in_flight s ! i of
           (c, phase) \<Rightarrow>
             (case track_step (db s) c phase of
                (st', phase') \<Rightarrow> \<lparr>db = st', in_flight = (in_flight s)[i := (c, phase')]\<rparr>))
      else s)"
| "server_step s (Atomic op) = s\<lparr>db := apply_op (db s) op\<rparr>"

definition run_events :: "server \<Rightarrow> event list \<Rightarrow> server" where
  "run_events s es = foldl server_step s es"

fun event_writes_counter :: "event \<Rightarrow> bool" where
  "event_writes_counter (Atomic op) = writes_counter op"
| "event_writes_counter _ = False"

section \<open>Example data\<close>

text \<open>
  A database with three users: the administrator that the local login creates (the
  column defaults, then \<^verbatim>\<open>role: 'admin'\<close>), a fresh user, and a user whose role is
  spelled \<^verbatim>\<open>Admin\<close> and whose free download is used; and one quote of the fresh user.
\<close>

definition example_storage :: storage where
  "example_storage =
     \<lparr>db_failure = None,
      users = [''local-admin'' \<mapsto> \<lparr>user_id = ''local-admin'', role = Some ''admin'',
                                   freeDownloadsUsed = Some 0, hasActiveSubscription = Some False\<rparr>,
               ''user-1'' \<mapsto> \<lparr>user_id = ''user-1'', role = Some ''user'',
                              freeDownloadsUsed = Some 0, hasActiveSubscription = Some False\<rparr>,
               ''user-2'' \<mapsto> \<lparr>user_id = ''user-2'', role = Some ''Admin'',
                              freeDownloadsUsed = Some 1, hasActiveSubscription = Some False\<rparr>],
      quoteDrafts = [''q1'' \<mapsto> \<lparr>quote_id = ''q1'', createdBy = ''user1@example.com''\<rparr>],
      quoteItems = []\<rparr>"

definition local_admin :: claims where
  "local_admin = \<lparr>sub = ''local-admin'', claims_email = ''admin@local''\<rparr>"

definition user_1 :: claims where
  "user_1 = \<lparr>sub = ''user-1'', claims_email = ''user1@example.com''\<rparr>"

definition user_2 :: claims where
  "user_2 = \<lparr>sub = ''user-2'', claims_email = ''user2@example.com''\<rparr>"

text \<open>
  Two requests of the fresh user that overlap: both pass the gate and both handlers read
  the counter 0 before either increments.
\<close>

definition example_server :: server where
  "example_server = \<lparr>db = example_storage, in_flight = []\<rparr>"

definition overlapping_reads :: "event list" where
  "overlapping_reads =
     [Begin_track user_1, Begin_track user_1, Advance 0, Advance 1, Advance 0, Advance 1]"

text \<open>
  Line items as the editor leaves them: a new row whose price was set to 100, and one
  whose price was set to -100 (the price input parses any number).
\<close>

definition priced_item :: "real \<Rightarrow> QuoteItem" where
  "priced_item p =
     \<lparr>description = [], unit_price = p, needed_quantity = 1, owned_quantity = 0,
      buy_quantity = 1, item_total = p\<rparr>"

definition empty_quote :: Quote where
  "empty_quote =
     \<lparr>code = ''QT-202611-001'', title = ''Empty'', client_name = [], client_email = [],
      items = [], discount = 0, template_variant = ''variant_a'', quote_note = None\<rparr>"

section \<open>Entitlement gate: properties\<close>

lemmas route_defs =
  requireSubscriptionOrFreeTrial_def check_pdf_access_def track_pdf_download_def
  track_pdf_download_handler_def get_quote_def admin_put_user_def
  getUser_def getQuoteDraft_def getQuoteItems_def incrementFreeDownloads_def updateUser_def
  role_or_empty_def error_msg_def is_admin_strict_def jnum_def jbool_def int4_def Let_def

lemmas example_defs = example_storage_def local_admin_def user_1_def user_2_def

lemma toLowerCase_Admin: "toLowerCase ''Admin'' = ''admin''"
  by (simp add: toLowerCase_def toLowerCase_char_def)

lemma toLowerCase_admin: "toLowerCase ''admin'' = ''admin''"
  by (simp add: toLowerCase_def toLowerCase_char_def)

lemma toLowerCase_user: "toLowerCase ''user'' = ''user''"
  by (simp add: toLowerCase_def toLowerCase_char_def)

text \<open>\<open>str_includes\<close> is the substring test.\<close>

lemma take_length_eq_iff: "take (length t) s = t \<longleftrightarrow> (\<exists>q. s = t @ q)"
  by (metis append_eq_conv_conj append_take_drop_id)

lemma str_includes_iff: "str_includes s t \<longleftrightarrow> (\<exists>p q. s = p @ t @ q)"
proof (induction s)
  case Nil
  then show ?case by simp
next
  case (Cons c cs)
  have "(\<exists>p q. c # cs = p @ t @ q) \<longleftrightarrow>
        (\<exists>q. c # cs = t @ q) \<or> (\<exists>p q. cs = p @ t @ q)"
  proof
    assume "\<exists>p q. c # cs = p @ t @ q"
    then obtain p q where pq: "c # cs = p @ t @ q" by blast
    show "(\<exists>q. c # cs = t @ q) \<or> (\<exists>p q. cs = p @ t @ q)"
    proof (cases p)
      case Nil
      with pq show ?thesis by auto
    next
      case (Cons a p')
      with pq have "cs = p' @ t @ q" by simp
      then show ?thesis by blast
    qed
  next
    assume "(\<exists>q. c # cs = t @ q) \<or> (\<exists>p q. cs = p @ t @ q)"
    then show "\<exists>p q. c # cs = p @ t @ q"
    proof
      assume "\<exists>q. c # cs = t @ q"
      then obtain q where "c # cs = [] @ t @ q" by auto
      then show ?thesis by blast
    next
      assume "\<exists>p q. cs = p @ t @ q"
      then obtain p q where "c # cs = (c # p) @ t @ q" by auto
      then show ?thesis by blast
    qed
  qed
  then show ?case
    using Cons.IH take_length_eq_iff [of t "c # cs"] by simp
qed
lemma stub_message_includes: "str_includes DATABASE_URL_message ''DATABASE_URL is not set''"
  by (simp add: DATABASE_URL_message_def)

lemma getUser_Some:
  "getUser st uid = Inr (Some u) \<Longrightarrow> db_failure st = None \<and> users st uid = Some u"
  by (auto simp: getUser_def split: option.splits)

text \<open>
  C1. The claim: for an admin, a document-generation request is permitted and leaves
  \<^verbatim>\<open>freeDownloadsUsed\<close> unchanged, whatever the counter and the subscription flag are.
  The route does permit it, but its handler does not look at the role: for the
  administrator of the example database (counter 0, no subscription) it increments the
  counter to 1 and answers with the free-trial message.
\<close>

theorem admin_first_download_increments_counter:
  "track_pdf_download example_storage local_admin =
     (example_storage\<lparr>users := (users example_storage)(''local-admin'' \<mapsto>
          \<lparr>user_id = ''local-admin'', role = Some ''admin'',
           freeDownloadsUsed = Some 1, hasActiveSubscription = Some False\<rparr>)\<rparr>,
      \<lparr>status = 200,
       body = Obj [(''success'', JBool True),
                   (''message'', JStr ''Free trial used. Subscribe to continue generating PDFs.''),
                   (''freeDownloadsUsed'', JNum 1)]\<rparr>)"
  by (simp add: route_defs example_defs toLowerCase_admin)

text \<open>
  C2. For a stored non-admin user with \<^verbatim>\<open>freeDownloadsUsed = 0\<close> and
  \<^verbatim>\<open>hasActiveSubscription = false\<close>, the first POST /api/track-pdf-download answers 200
  and sets the counter to 1; the call right after it is refused with 402, code
  \<^verbatim>\<open>SUBSCRIPTION_REQUIRED\<close> and the count 1, and leaves the database as it was.
\<close>

theorem fresh_user_one_download_then_402:
  assumes "getUser st (sub c) = Inr (Some u)"
    and "toLowerCase (role_or_empty u) \<noteq> ''admin''"
    and "freeDownloadsUsed u = Some 0"
    and "hasActiveSubscription u = Some False"
  shows "track_pdf_download st c =
           (st\<lparr>users := (users st)(sub c \<mapsto> u\<lparr>freeDownloadsUsed := Some 1\<rparr>)\<rparr>,
            \<lparr>status = 200,
             body = Obj [(''success'', JBool True),
                         (''message'', JStr ''Free trial used. Subscribe to continue generating PDFs.''),
                         (''freeDownloadsUsed'', JNum 1)]\<rparr>)
       \<and> track_pdf_download (st\<lparr>users := (users st)(sub c \<mapsto> u\<lparr>freeDownloadsUsed := Some 1\<rparr>)\<rparr>) c =
           (st\<lparr>users := (users st)(sub c \<mapsto> u\<lparr>freeDownloadsUsed := Some 1\<rparr>)\<rparr>,
            \<lparr>status = 402,
             body = Obj [(''message'', JStr ''Subscription required''),
                         (''code'', JStr ''SUBSCRIPTION_REQUIRED''),
                         (''freeDownloadsUsed'', JNum 1)]\<rparr>)"
proof -
  from assms(1) have db: "db_failure st = None" and u: "users st (sub c) = Some u"
    using getUser_Some by blast+
  have first: "track_pdf_download st c =
           (st\<lparr>users := (users st)(sub c \<mapsto> u\<lparr>freeDownloadsUsed := Some 1\<rparr>)\<rparr>,
            \<lparr>status = 200,
             body = Obj [(''success'', JBool True),
                         (''message'', JStr ''Free trial used. Subscribe to continue generating PDFs.''),
                         (''freeDownloadsUsed'', JNum 1)]\<rparr>)"
    using db u assms(2-4) by (simp add: route_defs)
  have second: "track_pdf_download (st\<lparr>users := (users st)(sub c \<mapsto> u\<lparr>freeDownloadsUsed := Some 1\<rparr>)\<rparr>) c =
           (st\<lparr>users := (users st)(sub c \<mapsto> u\<lparr>freeDownloadsUsed := Some 1\<rparr>)\<rparr>,
            \<lparr>status = 402,
             body = Obj [(''message'', JStr ''Subscription required''),
                         (''code'', JStr ''SUBSCRIPTION_REQUIRED''),
                         (''freeDownloadsUsed'', JNum 1)]\<rparr>)"
    using db u assms(2-4) by (simp add: route_defs)
  from first second show ?thesis by simp
qed

text \<open>C2 at the fresh user of the example database: 200 and counter 1, then 402.\<close>

theorem fresh_user_one_download_then_402_witness:
  "track_pdf_download example_storage user_1 =
     (example_storage\<lparr>users := (users example_storage)(''user-1'' \<mapsto>
          \<lparr>user_id = ''user-1'', role = Some ''user'',
           freeDownloadsUsed = Some 1, hasActiveSubscription = Some False\<rparr>)\<rparr>,
      \<lparr>status = 200,
       body = Obj [(''success'', JBool True),
                   (''message'', JStr ''Free trial used. Subscribe to continue generating PDFs.''),
                   (''freeDownloadsUsed'', JNum 1)]\<rparr>)
   \<and> snd (track_pdf_download (fst (track_pdf_download example_storage user_1)) user_1) =
      \<lparr>status = 402,
       body = Obj [(''message'', JStr ''Subscription required''),
                   (''code'', JStr ''SUBSCRIPTION_REQUIRED''),
                   (''freeDownloadsUsed'', JNum 1)]\<rparr>"
proof -
  let ?u = "\<lparr>user_id = ''user-1'', role = Some ''user'',
           freeDownloadsUsed = Some 0, hasActiveSubscription = Some False\<rparr>"
  have 1: "getUser example_storage (sub user_1) = Inr (Some ?u)"
    by (simp add: getUser_def example_defs)
  have 2: "toLowerCase (role_or_empty ?u) \<noteq> ''admin''"
    by (simp add: role_or_empty_def toLowerCase_user)
  have 3: "sub user_1 = ''user-1''" by (simp add: user_1_def)
  show ?thesis
    using fresh_user_one_download_then_402 [OF 1 2, simplified] 3 by simp
qed

text \<open>
  C9. The PDF gate and check-pdf-access lowercase the role before comparing it with
  \<^verbatim>\<open>admin\<close>; quote ownership and the admin routes compare the stored role as it is. So a
  user whose role is \<^verbatim>\<open>admin\<close> in another spelling, such as \<^verbatim>\<open>Admin\<close>, passes the gate,
  is told that they can generate, gets 200 from track-pdf-download, and still gets 403
  on another user's quote and on the admin update route.
\<close>

theorem capitalised_Admin_passes_pdf_gate_but_not_ownership:
  assumes "getUser st (sub c) = Inr (Some u)"
    and "toLowerCase (role_or_empty u) = ''admin''"
    and "role u \<noteq> Some ''admin''"
    and "quoteDrafts st qid = Some q"
    and "createdBy q \<noteq> claims_email c"
  shows "requireSubscriptionOrFreeTrial st c = Next \<and>
         check_pdf_access st c =
           \<lparr>status = 200,
            body = Obj [(''canGenerate'', JBool True), (''hasActiveSubscription'', JBool True),
                        (''freeDownloadsUsed'', JNum 0), (''isFreeTrial'', JBool False)]\<rparr> \<and>
         status (snd (track_pdf_download st c)) = 200 \<and>
         get_quote st c qid =
           \<lparr>status = 403, body = Obj [(''message'', JStr ''Access denied'')]\<rparr> \<and>
         admin_put_user st c uid updateData =
           (st, \<lparr>status = 403, body = Obj [(''message'', JStr ''Admin access required'')]\<rparr>)"
proof -
  from assms(1) have db: "db_failure st = None" and u: "users st (sub c) = Some u"
    using getUser_Some by blast+
  note low = assms(2)
  have gate: "requireSubscriptionOrFreeTrial st c = Next"
    using db u low by (simp add: requireSubscriptionOrFreeTrial_def getUser_def)
  have access: "check_pdf_access st c =
           \<lparr>status = 200,
            body = Obj [(''canGenerate'', JBool True), (''hasActiveSubscription'', JBool True),
                        (''freeDownloadsUsed'', JNum 0), (''isFreeTrial'', JBool False)]\<rparr>"
    using db u low by (simp add: check_pdf_access_def getUser_def)
  have track: "status (snd (track_pdf_download st c)) = 200"
    using db u low by (simp add: route_defs)
  have quote: "get_quote st c qid =
           \<lparr>status = 403, body = Obj [(''message'', JStr ''Access denied'')]\<rparr>"
    using db u assms(3-5) by (simp add: route_defs)
  have admin: "admin_put_user st c uid updateData =
           (st, \<lparr>status = 403, body = Obj [(''message'', JStr ''Admin access required'')]\<rparr>)"
    using db u assms(3) by (simp add: route_defs)
  from gate access track quote admin show ?thesis by simp
qed

text \<open>
  C9 at the user of the example database whose role is \<^verbatim>\<open>Admin\<close>, asking for the quote
  of the fresh user.
\<close>

theorem capitalised_Admin_passes_pdf_gate_but_not_ownership_witness:
  "requireSubscriptionOrFreeTrial example_storage user_2 = Next \<and>
   status (check_pdf_access example_storage user_2) = 200 \<and>
   status (snd (track_pdf_download example_storage user_2)) = 200 \<and>
   status (get_quote example_storage user_2 ''q1'') = 403 \<and>
   status (snd (admin_put_user example_storage user_2 ''user-1'' [Set_role (Some ''banned'')])) = 403"
proof -
  let ?u = "\<lparr>user_id = ''user-2'', role = Some ''Admin'',
             freeDownloadsUsed = Some 1, hasActiveSubscription = Some False\<rparr>"
  let ?q = "\<lparr>quote_id = ''q1'', createdBy = ''user1@example.com''\<rparr>"
  have 1: "getUser example_storage (sub user_2) = Inr (Some ?u)"
    by (simp add: getUser_def example_defs)
  have 2: "toLowerCase (role_or_empty ?u) = ''admin''"
    by (simp add: role_or_empty_def toLowerCase_Admin)
  have 3: "role ?u \<noteq> Some ''admin''" by simp
  have 4: "quoteDrafts example_storage ''q1'' = Some ?q"
    by (simp add: example_defs)
  have 5: "createdBy ?q \<noteq> claims_email user_2"
    by (simp add: example_defs)
  show ?thesis
    using capitalised_Admin_passes_pdf_gate_but_not_ownership
            [OF 1 2 3 4 5, of "''user-1''" "[Set_role (Some ''banned'')]"]
    by simp
qed

text \<open>
  C10. When the user lookup throws an error whose message contains
  \<^verbatim>\<open>DATABASE_URL is not set\<close>, the gate calls \<^verbatim>\<open>next()\<close> and check-pdf-access answers
  200 with \<^verbatim>\<open>canGenerate: true\<close>, whoever asks.
\<close>

theorem entitlement_fails_open_without_database:
  assumes "getUser st (sub c) = Inl e"
    and "str_includes (error_msg e) ''DATABASE_URL is not set''"
  shows "requireSubscriptionOrFreeTrial st c = Next \<and>
         check_pdf_access st c =
           \<lparr>status = 200,
            body = Obj [(''canGenerate'', JBool True), (''hasActiveSubscription'', JBool True),
                        (''freeDownloadsUsed'', JNum 0), (''isFreeTrial'', JBool False)]\<rparr>"
  using assms by (simp add: requireSubscriptionOrFreeTrial_def check_pdf_access_def)

text \<open>C10 at the stub database of db.ts, for a user whose free download is used.\<close>

theorem entitlement_fails_open_without_database_witness:
  "requireSubscriptionOrFreeTrial (createStubDb example_storage) user_2 = Next \<and>
   check_pdf_access (createStubDb example_storage) user_2 =
           \<lparr>status = 200,
            body = Obj [(''canGenerate'', JBool True), (''hasActiveSubscription'', JBool True),
                        (''freeDownloadsUsed'', JNum 0), (''isFreeTrial'', JBool False)]\<rparr>"
proof -
  have 1: "getUser (createStubDb example_storage) (sub user_2) =
             Inl (Thrown (Some DATABASE_URL_message))"
    by (simp add: getUser_def createStubDb_def)
  have 2: "str_includes (error_msg (Thrown (Some DATABASE_URL_message))) ''DATABASE_URL is not set''"
    using stub_message_includes by (simp add: error_msg_def)
  show ?thesis
    by (rule entitlement_fails_open_without_database [OF 1 2])
qed

subsection \<open>The counter over all operations\<close>

text \<open>
  Run with nothing in between, the three calls of a track request are the route as
  modelled in one piece.
\<close>

lemma track_alone_sequential:
  "track_alone st c = (fst (track_pdf_download st c), Done (snd (track_pdf_download st c)))"
  by (auto simp: track_alone_def track_pdf_download_def track_pdf_download_handler_def Let_def
           split: gate.splits sum.splits option.splits prod.splits)

lemma increment_counter:
  assumes "users st uid = Some u"
  shows "\<exists>u'. users (fst (track_step st c At_increment)) uid = Some u' \<and>
          (freeDownloadsUsed u' = freeDownloadsUsed u \<or>
           (\<exists>n. freeDownloadsUsed u = Some n \<and> freeDownloadsUsed u' = Some (n + 1) \<and>
                sub c = uid \<and>
                snd (track_step st c At_increment) =
                  Done \<lparr>status = 200,
                        body = Obj [(''success'', JBool True),
                                    (''message'', JStr ''Free trial used. Subscribe to continue generating PDFs.''),
                                    (''freeDownloadsUsed'', JNum 1)]\<rparr>))"
  using assms
  by (auto simp: incrementFreeDownloads_def Let_def split: option.splits)

lemma increment_happens:
  assumes "users st (sub c) = Some u" and "db_failure st = None"
    and "freeDownloadsUsed u = Some n" and "int4 (n + 1)"
  shows "track_step st c At_increment =
           (st\<lparr>users := (users st)(sub c \<mapsto> u\<lparr>freeDownloadsUsed := Some (n + 1)\<rparr>)\<rparr>,
            Done \<lparr>status = 200,
                  body = Obj [(''success'', JBool True),
                              (''message'', JStr ''Free trial used. Subscribe to continue generating PDFs.''),
                              (''freeDownloadsUsed'', JNum 1)]\<rparr>)"
  using assms by (simp add: incrementFreeDownloads_def Let_def)

lemma other_phases_keep_db:
  "phase \<noteq> At_increment \<Longrightarrow> fst (track_step st c phase) = st"
  by (cases phase) (auto split: gate.splits sum.splits option.splits)

lemma handler_enters_increment:
  "snd (track_step st c At_handler) = At_increment \<Longrightarrow>
   \<exists>r. users st (sub c) = Some r \<and> hasActiveSubscription r \<noteq> Some True \<and>
       freeDownloadsUsed r = Some 0"
  by (auto simp: getUser_def split: sum.splits option.splits if_splits)

lemma foldl_set_user_field_counter:
  "\<not> list_ex sets_counter data \<Longrightarrow>
   freeDownloadsUsed (foldl set_user_field u data) = freeDownloadsUsed u"
proof (induction data arbitrary: u)
  case Nil
  then show ?case by simp
next
  case (Cons f fs)
  then show ?case by (cases f) simp_all
qed

lemma admin_put_counter:
  assumes "\<not> list_ex sets_counter data" and "users st uid = Some u"
  shows "\<exists>u'. users (fst (admin_put_user st c target data)) uid = Some u' \<and>
          freeDownloadsUsed u' = freeDownloadsUsed u"
  using assms foldl_set_user_field_counter [OF assms(1)]
  by (auto simp: admin_put_user_def getUser_def updateUser_def Let_def
           split: option.splits)

lemma login_counter:
  assumes "users st uid = Some u"
  shows "\<exists>u'. users (apply_op st (Login target)) uid = Some u' \<and>
          freeDownloadsUsed u' = freeDownloadsUsed u"
  using assms
  by (auto simp: upsertUser_def Let_def split: option.splits)

lemma updateUser_counter:
  assumes "\<not> list_ex sets_counter data" and "users st uid = Some u"
    and "updateUser st target data = Inr (st', r)"
  shows "\<exists>u'. users st' uid = Some u' \<and> freeDownloadsUsed u' = freeDownloadsUsed u"
  using assms foldl_set_user_field_counter [OF assms(1)]
  by (auto simp: updateUser_def Let_def split: option.splits if_splits)

lemma local_login_counter:
  assumes "users st uid = Some u"
  shows "\<exists>u'. users (apply_op st Local_login) uid = Some u' \<and>
          freeDownloadsUsed u' = freeDownloadsUsed u"
proof (cases "upsertUser st ''local-admin''")
  case (Inl e)
  then show ?thesis using assms by simp
next
  case (Inr p)
  obtain st1 r where p: "p = (st1, r)" by (cases p)
  have "apply_op st (Login ''local-admin'') = st1" using Inr p by simp
  with login_counter [OF assms, of "''local-admin''"]
  obtain u1 where u1: "users st1 uid = Some u1" "freeDownloadsUsed u1 = freeDownloadsUsed u"
    by auto
  show ?thesis
  proof (cases "getUser st1 ''local-admin''")
    case (Inl e)
    then show ?thesis using Inr p u1 by simp
  next
    case get: (Inr found)
    show ?thesis
    proof (cases found)
      case None
      then show ?thesis using Inr p u1 get by simp
    next
      case (Some userRecord)
      show ?thesis
      proof (cases "role userRecord \<noteq> Some ''admin''")
        case False
        then show ?thesis using Inr p u1 get Some by simp
      next
        case True
        show ?thesis
        proof (cases "updateUser st1 (user_id userRecord) [Set_role (Some ''admin'')]")
          case (Inl e)
          then show ?thesis using Inr p u1 get Some True by simp
        next
          case upd: (Inr q)
          obtain st2 r2 where q: "q = (st2, r2)" by (cases q)
          have "\<not> list_ex sets_counter [Set_role (Some ''admin'')]" by simp
          from updateUser_counter [OF this u1(1) upd [unfolded q]]
          obtain u2 where "users st2 uid = Some u2" "freeDownloadsUsed u2 = freeDownloadsUsed u1"
            by blast
          then show ?thesis using Inr p u1 get Some True upd q by simp
        qed
      qed
    qed
  qed
qed

text \<open>On an empty database the local admin login leaves the administrator's row of the example.\<close>

lemma local_login_row:
  "users (apply_op \<lparr>db_failure = None, users = Map.empty, quoteDrafts = Map.empty,
                          quoteItems = []\<rparr> Local_login) ''local-admin'' =
     users example_storage ''local-admin''"
  by (simp add: upsertUser_def getUser_def updateUser_def Let_def example_storage_def)

lemma webhook_counter:
  assumes "users st uid = Some u"
  shows "\<exists>u'. users (apply_op st (Subscription_webhook target active)) uid = Some u' \<and>
          freeDownloadsUsed u' = freeDownloadsUsed u"
  using assms
  by (auto simp: updateSubscriptionStatus_def Let_def split: option.splits)

lemma apply_op_counter:
  assumes "\<not> writes_counter op" and "users st uid = Some u"
  shows "\<exists>u'. users (apply_op st op) uid = Some u' \<and>
          freeDownloadsUsed u' = freeDownloadsUsed u"
proof (cases op)
  case (Login target)
  then show ?thesis using login_counter [OF assms(2), of target] by simp
next
  case Local_login
  then show ?thesis using local_login_counter [OF assms(2)] by simp
next
  case (Check_pdf_access c)
  then show ?thesis using assms by simp
next
  case (Get_quote c qid)
  then show ?thesis using assms by simp
next
  case (Admin_put_user c target data)
  then show ?thesis using assms admin_put_counter [of data st uid u c target] by simp
next
  case (Subscription_webhook target active)
  then show ?thesis using webhook_counter [OF assms(2), of target active] by simp
qed

lemma advance_in_range:
  assumes "i < length (in_flight s)" and "in_flight s ! i = (c, phase)"
  shows "db (server_step s (Advance i)) = fst (track_step (db s) c phase)"
    and "in_flight (server_step s (Advance i)) ! i = (c, snd (track_step (db s) c phase))"
  using assms by (simp_all split: prod.splits)

lemma advance_out_of_range:
  "\<not> i < length (in_flight s) \<Longrightarrow> server_step s (Advance i) = s"
  by simp

lemma step_counter:
  assumes "\<not> event_writes_counter e" and "users (db s) uid = Some u"
  shows "\<exists>u'. users (db (server_step s e)) uid = Some u' \<and>
          (freeDownloadsUsed u' = freeDownloadsUsed u \<or>
           (\<exists>n i c. freeDownloadsUsed u = Some n \<and> freeDownloadsUsed u' = Some (n + 1) \<and>
                 e = Advance i \<and> i < length (in_flight s) \<and>
                 in_flight s ! i = (c, At_increment) \<and> sub c = uid \<and>
                 in_flight (server_step s e) ! i = (c, Done
                       \<lparr>status = 200,
                        body = Obj [(''success'', JBool True),
                                    (''message'', JStr ''Free trial used. Subscribe to continue generating PDFs.''),
                                    (''freeDownloadsUsed'', JNum 1)]\<rparr>)))"
proof (cases e)
  case (Begin_track c)
  then show ?thesis using assms by simp
next
  case (Atomic op)
  then show ?thesis using assms apply_op_counter [of op "db s" uid u] by auto
next
  case (Advance i)
  show ?thesis
  proof (cases "i < length (in_flight s)")
    case False
    then show ?thesis using Advance assms by simp
  next
    case True
    obtain c phase where cp: "in_flight s ! i = (c, phase)" by (cases "in_flight s ! i")
    note adv = advance_in_range [OF True cp]
    show ?thesis
    proof (cases "phase = At_increment")
      case False
      then show ?thesis
        using Advance assms adv(1) other_phases_keep_db [of phase "db s" c] by simp
    next
      case inc: True
      from increment_counter [OF assms(2), of c]
      obtain u' where u': "users (fst (track_step (db s) c At_increment)) uid = Some u'"
        and alt: "freeDownloadsUsed u' = freeDownloadsUsed u \<or>
           (\<exists>n. freeDownloadsUsed u = Some n \<and> freeDownloadsUsed u' = Some (n + 1) \<and>
                sub c = uid \<and> snd (track_step (db s) c At_increment) = Done
                       \<lparr>status = 200,
                        body = Obj [(''success'', JBool True),
                                    (''message'', JStr ''Free trial used. Subscribe to continue generating PDFs.''),
                                    (''freeDownloadsUsed'', JNum 1)]\<rparr>)"
        by blast
      have "users (db (server_step s e)) uid = Some u'"
        using u' adv(1) inc Advance by simp
      moreover have "freeDownloadsUsed u' = freeDownloadsUsed u \<or>
           (\<exists>n i c. freeDownloadsUsed u = Some n \<and> freeDownloadsUsed u' = Some (n + 1) \<and>
                 e = Advance i \<and> i < length (in_flight s) \<and>
                 in_flight s ! i = (c, At_increment) \<and> sub c = uid \<and>
                 in_flight (server_step s e) ! i = (c, Done
                       \<lparr>status = 200,
                        body = Obj [(''success'', JBool True),
                                    (''message'', JStr ''Free trial used. Subscribe to continue generating PDFs.''),
                                    (''freeDownloadsUsed'', JNum 1)]\<rparr>))"
        using alt
      proof
        assume "freeDownloadsUsed u' = freeDownloadsUsed u"
        then show ?thesis by simp
      next
        assume "\<exists>n. freeDownloadsUsed u = Some n \<and> freeDownloadsUsed u' = Some (n + 1) \<and>
                sub c = uid \<and> snd (track_step (db s) c At_increment) = Done
                       \<lparr>status = 200,
                        body = Obj [(''success'', JBool True),
                                    (''message'', JStr ''Free trial used. Subscribe to continue generating PDFs.''),
                                    (''freeDownloadsUsed'', JNum 1)]\<rparr>"
        then obtain n where n: "freeDownloadsUsed u = Some n" "freeDownloadsUsed u' = Some (n + 1)"
            "sub c = uid" "snd (track_step (db s) c At_increment) = Done
                       \<lparr>status = 200,
                        body = Obj [(''success'', JBool True),
                                    (''message'', JStr ''Free trial used. Subscribe to continue generating PDFs.''),
                                    (''freeDownloadsUsed'', JNum 1)]\<rparr>"
          by blast
        have "in_flight (server_step s e) ! i = (c, Done
                       \<lparr>status = 200,
                        body = Obj [(''success'', JBool True),
                                    (''message'', JStr ''Free trial used. Subscribe to continue generating PDFs.''),
                                    (''freeDownloadsUsed'', JNum 1)]\<rparr>)"
          using adv(2) inc n(4) Advance by simp
        then show ?thesis
          using n True cp inc Advance by blast
      qed
      ultimately show ?thesis by blast
    qed
  qed
qed

lemma step_increments:
  assumes "users (db s) uid = Some u"
    and "i < length (in_flight s)" and "in_flight s ! i = (c, At_increment)" and "sub c = uid"
    and "db_failure (db s) = None" and "freeDownloadsUsed u = Some n" and "int4 (n + 1)"
  shows "map_option freeDownloadsUsed (users (db (server_step s (Advance i))) uid) = Some (Some (n + 1))"
proof -
  have "users (db s) (sub c) = Some u" using assms(1,4) by simp
  from increment_happens [OF this assms(5,6,7)] advance_in_range(1) [OF assms(2,3)]
  show ?thesis using assms(4) by simp
qed

lemma step_enters_increment:
  assumes "i < length (in_flight s)" and "in_flight s ! i = (c, At_handler)"
    and "snd (in_flight (server_step s (Advance i)) ! i) = At_increment"
  shows "\<exists>r. users (db s) (sub c) = Some r \<and> hasActiveSubscription r \<noteq> Some True \<and>
       freeDownloadsUsed r = Some 0"
proof -
  have "snd (track_step (db s) c At_handler) = At_increment"
    using advance_in_range(2) [OF assms(1,2)] assms(3) by simp
  then show ?thesis by (rule handler_enters_increment)
qed

lemma overlapping_reads_state:
  "run_events example_server overlapping_reads =
     \<lparr>db = example_storage, in_flight = [(user_1, At_increment), (user_1, At_increment)]\<rparr>"
  by (simp add: run_events_def example_server_def overlapping_reads_def
      requireSubscriptionOrFreeTrial_def getUser_def role_or_empty_def toLowerCase_def
      toLowerCase_char_def example_defs)

lemma first_increment_state:
  "server_step (run_events example_server overlapping_reads) (Advance 0) =
     \<lparr>db = example_storage\<lparr>users := (users example_storage)(''user-1'' \<mapsto>
              \<lparr>user_id = ''user-1'', role = Some ''user'',
               freeDownloadsUsed = Some 1, hasActiveSubscription = Some False\<rparr>)\<rparr>,
      in_flight =
        [(user_1, Done \<lparr>status = 200,
                         body = Obj [(''success'', JBool True),
                                     (''message'', JStr ''Free trial used. Subscribe to continue generating PDFs.''),
                                     (''freeDownloadsUsed'', JNum 1)]\<rparr>),
         (user_1, At_increment)]\<rparr>"
  by (simp add: overlapping_reads_state incrementFreeDownloads_def int4_def Let_def example_defs)


text \<open>
  C5, as stated, fails: the claim says that no operation ever lowers
  \<^verbatim>\<open>freeDownloadsUsed\<close>. PUT /api/admin/users/:id hands the request body to
  \<^verbatim>\<open>updateUser\<close>, so an admin who sends \<^verbatim>\<open>{ freeDownloadsUsed: 0 }\<close> for a user whose
  counter is 1 sets it back to 0.
\<close>

theorem admin_update_resets_counter:
  "map_option freeDownloadsUsed (users example_storage ''user-2'') = Some (Some 1) \<and>
   map_option freeDownloadsUsed
     (users (apply_op example_storage
               (Admin_put_user local_admin ''user-2'' [Set_freeDownloadsUsed (Some 0)])) ''user-2'')
     = Some (Some 0)"
  by (simp add: route_defs example_defs)

text \<open>
  C5, amended. Leave out the admin updates that name the \<^verbatim>\<open>freeDownloadsUsed\<close> column.
  Then, with requests overlapping in any way, every step of the server leaves each
  user's counter as it is or raises it by exactly 1, and it raises it only in the
  increment of a POST /api/track-pdf-download of that user, which then answers 200; that
  increment does raise the counter when the database is up and the counter is below the
  column's maximum; and a request gets to its increment only when its handler read the
  requester with no active subscription and counter 0. So the counter never goes down,
  but it can pass 1: two requests that both read 0 each add 1.
\<close>

theorem counter_rises_by_one_at_track_increment_only:
  assumes "\<not> event_writes_counter e" and "users (db s) uid = Some u"
  shows "(\<exists>u'. users (db (server_step s e)) uid = Some u' \<and>
            (freeDownloadsUsed u' = freeDownloadsUsed u \<or>
             (\<exists>n i c. freeDownloadsUsed u = Some n \<and> freeDownloadsUsed u' = Some (n + 1) \<and>
                   e = Advance i \<and> i < length (in_flight s) \<and>
                   in_flight s ! i = (c, At_increment) \<and> sub c = uid \<and>
                   in_flight (server_step s e) ! i =
                     (c, Done \<lparr>status = 200,
                               body = Obj [(''success'', JBool True),
                                           (''message'', JStr ''Free trial used. Subscribe to continue generating PDFs.''),
                                           (''freeDownloadsUsed'', JNum 1)]\<rparr>)))) \<and>
         (\<forall>i c n. e = Advance i \<and> i < length (in_flight s) \<and>
                  in_flight s ! i = (c, At_increment) \<and> sub c = uid \<and>
                  db_failure (db s) = None \<and> freeDownloadsUsed u = Some n \<and> int4 (n + 1) \<longrightarrow>
                  map_option freeDownloadsUsed (users (db (server_step s e)) uid) = Some (Some (n + 1))) \<and>
         (\<forall>i c. e = Advance i \<and> i < length (in_flight s) \<and>
                in_flight s ! i = (c, At_handler) \<and>
                snd (in_flight (server_step s e) ! i) = At_increment \<longrightarrow>
                (\<exists>r. users (db s) (sub c) = Some r \<and> hasActiveSubscription r \<noteq> Some True \<and>
                     freeDownloadsUsed r = Some 0))"
proof (intro conjI allI impI)
  show "\<exists>u'. users (db (server_step s e)) uid = Some u' \<and>
            (freeDownloadsUsed u' = freeDownloadsUsed u \<or>
             (\<exists>n i c. freeDownloadsUsed u = Some n \<and> freeDownloadsUsed u' = Some (n + 1) \<and>
                   e = Advance i \<and> i < length (in_flight s) \<and>
                   in_flight s ! i = (c, At_increment) \<and> sub c = uid \<and>
                   in_flight (server_step s e) ! i =
                     (c, Done \<lparr>status = 200,
                               body = Obj [(''success'', JBool True),
                                           (''message'', JStr ''Free trial used. Subscribe to continue generating PDFs.''),
                                           (''freeDownloadsUsed'', JNum 1)]\<rparr>)))"
    by (rule step_counter [OF assms])
next
  fix i c n
  assume "e = Advance i \<and> i < length (in_flight s) \<and>
          in_flight s ! i = (c, At_increment) \<and> sub c = uid \<and>
          db_failure (db s) = None \<and> freeDownloadsUsed u = Some n \<and> int4 (n + 1)"
  then show "map_option freeDownloadsUsed (users (db (server_step s e)) uid) = Some (Some (n + 1))"
    using step_increments [OF assms(2), of i c n] by auto
next
  fix i c
  assume "e = Advance i \<and> i < length (in_flight s) \<and>
          in_flight s ! i = (c, At_handler) \<and>
          snd (in_flight (server_step s e) ! i) = At_increment"
  then show "\<exists>r. users (db s) (sub c) = Some r \<and> hasActiveSubscription r \<noteq> Some True \<and>
                 freeDownloadsUsed r = Some 0"
    using step_enters_increment [of i s c] by auto
qed


text \<open>
  C5, amended, at two overlapping requests of the fresh user: after both handlers have
  read the counter 0, the first increment leaves 1 and the second leaves 2.
\<close>

theorem counter_rises_by_one_at_track_increment_only_witness:
  "map_option freeDownloadsUsed
     (users (db (run_events example_server (overlapping_reads @ [Advance 0]))) ''user-1'')
     = Some (Some 1) \<and>
   map_option freeDownloadsUsed
     (users (db (run_events example_server (overlapping_reads @ [Advance 0, Advance 1]))) ''user-1'')
     = Some (Some 2)"
proof -
  let ?s = "server_step (run_events example_server overlapping_reads) (Advance 0)"
  let ?u = "\<lparr>user_id = ''user-1'', role = Some ''user'',
             freeDownloadsUsed = Some 1, hasActiveSubscription = Some False\<rparr>"
  have 1: "\<not> event_writes_counter (Advance 1)" by simp
  have 2: "users (db ?s) ''user-1'' = Some ?u"
    by (simp add: first_increment_state del: server_step.simps)
  have 3: "Advance 1 = Advance 1 \<and> 1 < length (in_flight ?s) \<and>
           in_flight ?s ! 1 = (user_1, At_increment) \<and> sub user_1 = ''user-1'' \<and>
           db_failure (db ?s) = None \<and> freeDownloadsUsed ?u = Some 1 \<and> int4 (1 + 1)"
    by (simp add: first_increment_state int4_def example_defs del: server_step.simps)
  from counter_rises_by_one_at_track_increment_only [OF 1 2] 3
  have "map_option freeDownloadsUsed (users (db (server_step ?s (Advance 1))) ''user-1'')
          = Some (Some (1 + 1))"
    by blast
  then show ?thesis
    using 2 by (simp add: run_events_def del: server_step.simps)
qed

section \<open>Pricing: properties\<close>

lemma or0_id: "or0 x = x"
  by (simp add: or0_def)

lemma foldl_plus_sum_list:
  "foldl (\<lambda>sum item. sum + f item) a xs = a + sum_list (map f xs)" for a :: real
  by (induction xs arbitrary: a) simp_all

lemma QuoteSummary_subtotal: "subtotal (QuoteSummary its d) = sum_list (map item_total its)"
  by (simp add: QuoteSummary_def Let_def or0_id foldl_plus_sum_list)

lemma QuoteSummary_discountAmount:
  "discountAmount (QuoteSummary its d) = sum_list (map item_total its) * d / 100"
  by (simp add: QuoteSummary_def Let_def or0_id foldl_plus_sum_list)

lemma QuoteSummary_grand_total:
  "grand_total (QuoteSummary its d) =
     sum_list (map item_total its) - sum_list (map item_total its) * d / 100"
  by (simp add: QuoteSummary_def Let_def or0_id foldl_plus_sum_list)

lemma generateQuotePDF_subtotal:
  "subtotal (generateQuotePDF_totals q) = sum_list (map item_total (items q))"
  by (simp add: generateQuotePDF_totals_def Let_def or0_id foldl_plus_sum_list)

lemma generateQuotePDF_discountAmount:
  "discountAmount (generateQuotePDF_totals q) = sum_list (map item_total (items q)) * discount q / 100"
  by (simp add: generateQuotePDF_totals_def Let_def or0_id foldl_plus_sum_list)

lemma generateQuotePDF_grand_total:
  "grand_total (generateQuotePDF_totals q) =
     sum_list (map item_total (items q)) - sum_list (map item_total (items q)) * discount q / 100"
  by (simp add: generateQuotePDF_totals_def Let_def or0_id foldl_plus_sum_list)

lemma addItem_ok: "list_all derived_ok its \<Longrightarrow> list_all derived_ok (addItem its)"
  by (simp add: addItem_def derived_ok_def)

lemma removeItem_subset: "set (removeItem index its) \<subseteq> set its"
  by (auto simp: removeItem_def in_set_enumerate_eq)

lemma removeItem_ok: "list_all derived_ok its \<Longrightarrow> list_all derived_ok (removeItem index its)"
  using removeItem_subset [of index its] by (auto simp: list_all_iff)

lemma updateItem_ok:
  assumes "list_all derived_ok its" and "row_input (UpdateItem index fv)"
    and "updateItem index fv its = Some its'"
  shows "list_all derived_ok its'"
proof -
  from assms(3) have lt: "index < length its"
    by (simp add: updateItem_def split: if_splits)
  then have old: "derived_ok (its ! index)"
    using assms(1) by (simp add: list_all_length)
  define item' where "item' = (let item = set_field (its ! index) fv in
       if recomputes fv
       then item\<lparr>buy_quantity := max 0 (or0 (needed_quantity item) - or0 (owned_quantity item)),
                 item_total := max 0 (or0 (needed_quantity item) - or0 (owned_quantity item)) * or0 (unit_price item)\<rparr>
       else item)"
  have eq: "its' = its[index := item']"
    using assms(3) lt unfolding updateItem_def item'_def Let_def by auto
  have "derived_ok item'"
    using old assms(2) by (cases fv) (simp_all add: item'_def derived_ok_def or0_id)
  then show ?thesis
    using assms(1) eq by (auto simp: list_all_iff dest: set_update_subset_insert [THEN subsetD])
qed

lemma apply_edit_ok:
  assumes "list_all derived_ok its" and "row_input e" and "apply_edit its e = Some its'"
  shows "list_all derived_ok its'"
proof (cases e)
  case AddItem
  then show ?thesis using assms addItem_ok by auto
next
  case (RemoveItem index)
  then show ?thesis using assms removeItem_ok by auto
next
  case (UpdateItem index fv)
  then show ?thesis using assms updateItem_ok by auto
qed

lemma run_edits_ok:
  "list_all derived_ok its \<Longrightarrow> list_all row_input es \<Longrightarrow> run_edits its es = Some its' \<Longrightarrow>
   list_all derived_ok its'"
proof (induction es arbitrary: its)
  case Nil
  then show ?case by simp
next
  case (Cons e es)
  then show ?case
    by (auto split: option.splits dest: apply_edit_ok)
qed

lemma derived_ok_sum:
  "list_all derived_ok its \<Longrightarrow>
   sum_list (map item_total its) =
   (\<Sum>item\<leftarrow>its. max 0 (needed_quantity item - owned_quantity item) * unit_price item)"
  by (induction its) (simp_all add: derived_ok_def)

lemma priced_item_reached:
  "run_edits [] [AddItem, UpdateItem 0 (Unit_price p)] = Some [priced_item p]"
  by (simp add: addItem_def updateItem_def priced_item_def or0_def Let_def)


text \<open>
  C3. For every list of items that the editor builds from the empty list through
  addItem, removeItem and updateItem on a row's inputs, each item has
  \<^verbatim>\<open>buy_quantity = max(0, needed_quantity - owned_quantity)\<close>, which is never negative,
  and \<^verbatim>\<open>total = buy_quantity * unit_price\<close>; and the subtotal, in the summary and in the
  PDF, is the sum over the items of \<^verbatim>\<open>max(0, needed - owned) * price\<close>.
\<close>

theorem edited_items_keep_derived_fields:
  assumes "run_edits [] es = Some its" and "list_all row_input es"
  shows "(\<forall>item \<in> set its.
            buy_quantity item = max 0 (needed_quantity item - owned_quantity item) \<and>
            0 \<le> buy_quantity item \<and>
            item_total item = buy_quantity item * unit_price item) \<and>
         subtotal (QuoteSummary its d) =
           (\<Sum>item\<leftarrow>its. max 0 (needed_quantity item - owned_quantity item) * unit_price item) \<and>
         subtotal (generateQuotePDF_totals (q\<lparr>items := its\<rparr>)) =
           (\<Sum>item\<leftarrow>its. max 0 (needed_quantity item - owned_quantity item) * unit_price item)"
proof -
  have ok: "list_all derived_ok its"
    using run_edits_ok [OF _ assms(2) assms(1)] by simp
  then have each: "\<forall>item \<in> set its.
            buy_quantity item = max 0 (needed_quantity item - owned_quantity item) \<and>
            0 \<le> buy_quantity item \<and>
            item_total item = buy_quantity item * unit_price item"
    by (auto simp: list_all_iff derived_ok_def)
  show ?thesis
    using each derived_ok_sum [OF ok]
    by (simp add: QuoteSummary_subtotal generateQuotePDF_subtotal)
qed


text \<open>
  C3 at the specification's example: one item with price 100, needed 5, owned 2 has buy
  quantity 3 and line total 300, and the subtotal is 300.
\<close>

theorem edited_items_keep_derived_fields_witness:
  "run_edits [] [AddItem, UpdateItem 0 (Unit_price 100), UpdateItem 0 (Needed_quantity 5),
                 UpdateItem 0 (Owned_quantity 2)] =
     Some [\<lparr>description = [], unit_price = 100, needed_quantity = 5, owned_quantity = 2,
            buy_quantity = 3, item_total = 300\<rparr>] \<and>
   subtotal (QuoteSummary [\<lparr>description = [], unit_price = 100, needed_quantity = 5,
                            owned_quantity = 2, buy_quantity = 3, item_total = 300\<rparr>] 10) = 300"
proof -
  have 1: "run_edits [] [AddItem, UpdateItem 0 (Unit_price 100), UpdateItem 0 (Needed_quantity 5),
                 UpdateItem 0 (Owned_quantity 2)] =
     Some [\<lparr>description = [], unit_price = 100, needed_quantity = 5, owned_quantity = 2,
            buy_quantity = 3, item_total = 300\<rparr>]"
    by (simp add: addItem_def updateItem_def or0_def Let_def)
  have 2: "list_all row_input [AddItem, UpdateItem 0 (Unit_price 100), UpdateItem 0 (Needed_quantity 5),
                 UpdateItem 0 (Owned_quantity 2)]"
    by simp
  show ?thesis
    using edited_items_keep_derived_fields [OF 1 2, of 10 empty_quote] 1 by simp
qed


subsection \<open>Totals with overflow\<close>

lemma overflow_at_pos: "0 < overflow_at"
  by (simp add: overflow_at_def)

lemma overflow_Finite: "- overflow_at < x \<Longrightarrow> x < overflow_at \<Longrightarrow> overflow x = Finite x"
  by (simp add: overflow_def)

lemma foldl_js_add_Finite:
  "0 \<le> a \<Longrightarrow> \<forall>x \<in> set xs. 0 \<le> x \<Longrightarrow> a + sum_list xs < overflow_at \<Longrightarrow>
   foldl (\<lambda>sum t. js_add sum (js_or0 t)) (Finite a) (map Finite xs) = Finite (a + sum_list xs)"
proof (induction xs arbitrary: a)
  case Nil
  then show ?case by simp
next
  case (Cons x xs)
  have nonneg: "0 \<le> sum_list xs"
    using Cons.prems(2) by (auto intro!: sum_list_nonneg)
  have "overflow (a + x) = Finite (a + x)"
    using Cons.prems nonneg overflow_at_pos by (intro overflow_Finite) auto
  moreover have "foldl (\<lambda>sum t. js_add sum (js_or0 t)) (Finite (a + x)) (map Finite xs)
                   = Finite (a + x + sum_list xs)"
    using Cons.prems by (intro Cons.IH) (auto simp: add.assoc)
  ultimately show ?case by (simp add: add.assoc)
qed

text \<open>Within the range of the doubles the two models agree.\<close>

lemma QuoteSummary_js_exact:
  assumes "\<forall>item \<in> set its. 0 \<le> item_total item"
    and "0 \<le> d"
    and "sum_list (map item_total its) < overflow_at"
    and "sum_list (map item_total its) * d < overflow_at"
  shows "QuoteSummary_js (totals_of its) (Finite d) =
           \<lparr>js_subtotal = Finite (subtotal (QuoteSummary its d)),
            js_discountAmount = Finite (discountAmount (QuoteSummary its d)),
            js_total = Finite (grand_total (QuoteSummary its d))\<rparr>"
proof -
  let ?s = "sum_list (map item_total its)"
  have s0: "0 \<le> ?s" using assms(1) by (auto intro!: sum_list_nonneg)
  have sub: "foldl (\<lambda>sum t. js_add sum (js_or0 t)) (Finite 0) (totals_of its) = Finite ?s"
    using foldl_js_add_Finite [of 0 "map item_total its"] assms(1,3)
    by (simp add: totals_of_def comp_def)
  have prod: "overflow (?s * d) = Finite (?s * d)"
    using s0 assms(2,4) overflow_at_pos
    by (intro overflow_Finite) (auto intro: less_le_trans [of _ 0])
  have sd: "0 \<le> ?s * d" using s0 assms(2) by simp
  have small: "?s * d / 100 \<le> ?s * d" using sd by (simp add: mult.commute)
  have q: "?s * d / 100 < overflow_at" by (rule le_less_trans [OF small assms(4)])
  have lo: "- overflow_at < ?s - ?s * d / 100" using q s0 by linarith
  have hi: "?s - ?s * d / 100 < overflow_at" using sd assms(3) by (simp add: mult.commute) 
  have diff: "overflow (?s - ?s * d / 100) = Finite (?s - ?s * d / 100)"
    by (rule overflow_Finite [OF lo hi])
  show ?thesis
    using sub prod diff
    by (simp add: QuoteSummary_js_def Let_def js_sub_def QuoteSummary_subtotal
        QuoteSummary_discountAmount QuoteSummary_grand_total)
qed

text \<open>
  C4, as stated, fails: the claim has \<^verbatim>\<open>total <= subtotal\<close> for every subtotal and every
  discount from 0 to 100. A row whose price was set to -100 gives the subtotal -100, and
  with a discount of 10 the total is -90, above the subtotal. And a row whose total has
  overflowed (price 1e308 times quantity 10 is Infinity) gives the subtotal Infinity and
  the total NaN, which is not below anything.
\<close>

theorem total_above_subtotal_when_negative_or_infinite:
  "run_edits [] [AddItem, UpdateItem 0 (Unit_price (- 100))] = Some [priced_item (- 100)] \<and>
   QuoteSummary_js (totals_of [priced_item (- 100)]) (Finite 10) =
     \<lparr>js_subtotal = Finite (- 100), js_discountAmount = Finite (- 10), js_total = Finite (- 90)\<rparr> \<and>
   \<not> js_le (js_total (QuoteSummary_js (totals_of [priced_item (- 100)]) (Finite 10)))
            (js_subtotal (QuoteSummary_js (totals_of [priced_item (- 100)]) (Finite 10))) \<and>
   js_mul (Finite 10) (Finite (10 ^ 308)) = PosInfinity \<and>
   QuoteSummary_js [PosInfinity] (Finite 10) =
     \<lparr>js_subtotal = PosInfinity, js_discountAmount = PosInfinity, js_total = NaN\<rparr> \<and>
   \<not> js_le (js_total (QuoteSummary_js [PosInfinity] (Finite 10)))
            (js_subtotal (QuoteSummary_js [PosInfinity] (Finite 10)))"
proof -
  have 1: "run_edits [] [AddItem, UpdateItem 0 (Unit_price (- 100))] = Some [priced_item (- 100)]"
    by (rule priced_item_reached)
  have 2: "QuoteSummary_js (totals_of [priced_item (- 100)]) (Finite 10) =
     \<lparr>js_subtotal = Finite (- 100), js_discountAmount = Finite (- 10), js_total = Finite (- 90)\<rparr>"
    by (simp add: QuoteSummary_js_def totals_of_def priced_item_def Let_def js_sub_def
        overflow_def overflow_at_def)
  have 3: "js_mul (Finite 10) (Finite (10 ^ 308)) = PosInfinity"
    by (simp add: overflow_def overflow_at_def)
  have 4: "QuoteSummary_js [PosInfinity] (Finite 10) =
     \<lparr>js_subtotal = PosInfinity, js_discountAmount = PosInfinity, js_total = NaN\<rparr>"
    by (simp add: QuoteSummary_js_def Let_def js_sub_def)
  show ?thesis
    unfolding 2 4 using 1 3 by simp
qed

text \<open>
  C4, amended. For every discount from 0 to 100 and every subtotal that is finite and
  not negative, \<^verbatim>\<open>total <= subtotal\<close>, in the summary and in the PDF alike; and the
  total is \<^verbatim>\<open>subtotal - subtotal * discount / 100\<close>, unless the product
  \<^verbatim>\<open>subtotal * discount\<close> overflows, where the total is -Infinity.
\<close>

theorem total_at_most_finite_nonnegative_subtotal:
  assumes "js_subtotal (QuoteSummary_js ts (Finite d)) = Finite s"
    and "0 \<le> s" and "s < overflow_at" and "0 \<le> d" and "d \<le> 100"
  shows "js_le (js_total (QuoteSummary_js ts (Finite d)))
               (js_subtotal (QuoteSummary_js ts (Finite d))) \<and>
         js_total (QuoteSummary_js ts (Finite d)) =
           (if overflow_at \<le> s * d then NegInfinity else Finite (s - s * d / 100)) \<and>
         generateQuotePDF_totals_js ts (Finite d) = QuoteSummary_js ts (Finite d)"
proof -
  have sub: "foldl (\<lambda>sum t. js_add sum (js_or0 t)) (Finite 0) ts = Finite s"
    using assms(1) by (simp add: QuoteSummary_js_def Let_def)
  have same: "generateQuotePDF_totals_js ts (Finite d) = QuoteSummary_js ts (Finite d)"
    by (simp add: generateQuotePDF_totals_js_def QuoteSummary_js_def)
  have sd: "0 \<le> s * d" using assms(2,4) by simp
  show ?thesis
  proof (cases "overflow_at \<le> s * d")
    case True
    then have "js_total (QuoteSummary_js ts (Finite d)) = NegInfinity"
      using sub by (simp add: QuoteSummary_js_def Let_def js_sub_def overflow_def)
    then show ?thesis using True same assms(1) by simp
  next
    case False
    then have prod: "overflow (s * d) = Finite (s * d)"
      using sd overflow_at_pos by (intro overflow_Finite) auto
    have q: "0 \<le> s * d / 100" using sd by simp
    have le: "s * d / 100 \<le> s"
      using assms(2,5) by (simp add: mult_left_mono)
    have diff: "overflow (s - s * d / 100) = Finite (s - s * d / 100)"
      using q le assms(3) overflow_at_pos by (intro overflow_Finite) auto
    have "js_total (QuoteSummary_js ts (Finite d)) = Finite (s - s * d / 100)"
      using sub prod diff by (simp add: QuoteSummary_js_def Let_def js_sub_def)
    then show ?thesis using False same assms(1) q by simp
  qed
qed

text \<open>C4, amended, at subtotal 300 and discount 10: the total is 270.\<close>

theorem total_at_most_finite_nonnegative_subtotal_witness:
  "QuoteSummary_js [Finite 300] (Finite 10) =
     \<lparr>js_subtotal = Finite 300, js_discountAmount = Finite 30, js_total = Finite 270\<rparr> \<and>
   js_le (js_total (QuoteSummary_js [Finite 300] (Finite 10)))
         (js_subtotal (QuoteSummary_js [Finite 300] (Finite 10))) \<and>
   generateQuotePDF_totals_js [Finite 300] (Finite 10) = QuoteSummary_js [Finite 300] (Finite 10)"
proof -
  have v: "QuoteSummary_js [Finite 300] (Finite 10) =
     \<lparr>js_subtotal = Finite 300, js_discountAmount = Finite 30, js_total = Finite 270\<rparr>"
    by (simp add: QuoteSummary_js_def Let_def js_sub_def overflow_def overflow_at_def)
  have 1: "js_subtotal (QuoteSummary_js [Finite 300] (Finite 10)) = Finite 300"
    by (simp add: v)
  have 2: "(0::real) \<le> 300" and 3: "(300::real) < overflow_at"
    and 4: "(0::real) \<le> 10" and 5: "(10::real) \<le> 100"
    by (simp_all add: overflow_at_def)
  from total_at_most_finite_nonnegative_subtotal [OF 1 2 3 4 5]
  have le: "js_le (js_total (QuoteSummary_js [Finite 300] (Finite 10)))
                  (js_subtotal (QuoteSummary_js [Finite 300] (Finite 10)))"
    and same: "generateQuotePDF_totals_js [Finite 300] (Finite 10) =
               QuoteSummary_js [Finite 300] (Finite 10)"
    by blast+
  from v le same show ?thesis by blast
qed

text \<open>
  C6, as stated, fails: the claim clamps the percentage to the interval from 0 to 100.
  The code does not: at subtotal 100 and discount 150 it computes a discount amount of
  150, where the clamped formula gives 100.
\<close>

theorem discount_above_100_not_clamped:
  "discountAmount (QuoteSummary [priced_item 100] 150) = 150 \<and>
   spec_discountAmount (subtotal (QuoteSummary [priced_item 100] 150)) 150 = 100 \<and>
   discountAmount (generateQuotePDF_totals (empty_quote\<lparr>items := [priced_item 100], discount := 150\<rparr>)) = 150"
  by (simp add: QuoteSummary_subtotal QuoteSummary_discountAmount generateQuotePDF_discountAmount
      priced_item_def spec_discountAmount_def spec_clamp_def)


text \<open>
  C6, amended. For every subtotal and every discount, the discount amount is
  \<^verbatim>\<open>subtotal * discount / 100\<close> with the percentage taken as it is, in the summary and in
  the PDF; it agrees with the clamped formula when the discount lies between 0 and 100.
\<close>

theorem discountAmount_unclamped:
  "discountAmount (QuoteSummary its d) = subtotal (QuoteSummary its d) * d / 100 \<and>
   discountAmount (generateQuotePDF_totals (q\<lparr>items := its, discount := d\<rparr>)) =
     subtotal (generateQuotePDF_totals (q\<lparr>items := its, discount := d\<rparr>)) * d / 100 \<and>
   (0 \<le> d \<and> d \<le> 100 \<longrightarrow>
      discountAmount (QuoteSummary its d) = spec_discountAmount (subtotal (QuoteSummary its d)) d)"
  by (simp add: QuoteSummary_subtotal QuoteSummary_discountAmount generateQuotePDF_subtotal
      generateQuotePDF_discountAmount spec_discountAmount_def spec_clamp_def)


text \<open>C6, amended, at subtotal 300 and discount 10: both formulas give 30.\<close>

theorem discountAmount_unclamped_witness:
  "(0::real) \<le> 10 \<and> (10::real) \<le> 100 \<and>
   discountAmount (QuoteSummary [priced_item 300] 10) = 30 \<and>
   spec_discountAmount (subtotal (QuoteSummary [priced_item 300] 10)) 10 = 30"
  using discountAmount_unclamped [of "[priced_item 300]" 10 empty_quote]
  by (simp add: QuoteSummary_subtotal priced_item_def)


section \<open>Document renderer: properties\<close>

text \<open>
  C7. For every variant string other than \<^verbatim>\<open>variant_b\<close>, \<^verbatim>\<open>variant_c\<close>, \<^verbatim>\<open>variant_d\<close>
  and \<^verbatim>\<open>variant_e\<close>, the colour selection returns the classic palette, the one of
  \<^verbatim>\<open>variant_a\<close>. It has no failing branch: the \<^verbatim>\<open>switch\<close> ends in \<^verbatim>\<open>default\<close>.
\<close>

theorem unknown_variant_gets_classic_palette:
  assumes "variant \<notin> {''variant_b'', ''variant_c'', ''variant_d'', ''variant_e''}"
  shows "getTemplateColors variant =
           \<lparr>main = ''#2563eb'', dark = ''#1e40af'', light = ''#e0e7ff'', bg = ''#eff6ff'',
            bg_grad = ''linear-gradient(135deg, #eff6ff 0%, #dbeafe 100%)'',
            header_grad = ''linear-gradient(135deg, #2563eb 0%, #3b82f6 100%)'',
            text_color = None, text_alt = None\<rparr> \<and>
         getTemplateColors variant = getTemplateColors ''variant_a''"
  using assms by (simp add: getTemplateColors_def)


text \<open>C7 at the unknown variant \<^verbatim>\<open>neon\<close>.\<close>

theorem unknown_variant_gets_classic_palette_witness:
  "''neon'' \<notin> {''variant_b'', ''variant_c'', ''variant_d'', ''variant_e''} \<and>
   getTemplateColors ''neon'' =
     \<lparr>main = ''#2563eb'', dark = ''#1e40af'', light = ''#e0e7ff'', bg = ''#eff6ff'',
      bg_grad = ''linear-gradient(135deg, #eff6ff 0%, #dbeafe 100%)'',
      header_grad = ''linear-gradient(135deg, #2563eb 0%, #3b82f6 100%)'',
      text_color = None, text_alt = None\<rparr> \<and>
   getTemplateColors ''neon'' = getTemplateColors ''variant_a''"
proof -
  have 1: "''neon'' \<notin> {''variant_b'', ''variant_c'', ''variant_d'', ''variant_e''}"
    by simp
  show ?thesis
    using unknown_variant_gets_classic_palette [OF 1] 1 by blast
qed


text \<open>
  C8, as stated, fails: the claim has the rendered items table hold a placeholder row
  when the quote has no items. The template maps the items to rows and joins them, so
  for no items the table body is empty: no piece of it opens a row.
\<close>

theorem empty_quote_renders_no_row:
  \<open>items empty_quote = [] \<and> discount empty_quote = 0 \<and>
   items_tbody empty_quote =
     [Lit ''<tbody>\<newline>              '', Lit ''\<newline>            </tbody>''] \<and>
   \<not> list_ex opens_row (items_tbody empty_quote)\<close>
  by (simp add: items_tbody_def empty_quote_def)


text \<open>
  C8, amended. For a quote with no items and discount 0, subtotal, discount amount and
  total are 0, and the rendered table body holds no row at all. The placeholder row for
  an empty list is the one of the editing table.
\<close>

theorem empty_quote_totals_zero_and_empty_tbody:
  assumes "items q = []" and "discount q = 0"
  shows \<open>subtotal (generateQuotePDF_totals q) = 0 \<and>
         discountAmount (generateQuotePDF_totals q) = 0 \<and>
         grand_total (generateQuotePDF_totals q) = 0 \<and>
         subtotal (QuoteSummary (items q) (discount q)) = 0 \<and>
         grand_total (QuoteSummary (items q) (discount q)) = 0 \<and>
         items_tbody q = [Lit ''<tbody>\<newline>              '', Lit ''\<newline>            </tbody>''] \<and>
         ItemsList_rows (items q) = [No_items_row]\<close>
  using assms
  by (simp add: generateQuotePDF_subtotal generateQuotePDF_discountAmount generateQuotePDF_grand_total
      QuoteSummary_subtotal QuoteSummary_grand_total items_tbody_def ItemsList_rows_def)


text \<open>C8, amended, at the empty example quote.\<close>

theorem empty_quote_totals_zero_and_empty_tbody_witness:
  "grand_total (generateQuotePDF_totals empty_quote) = 0 \<and>
   length (items_tbody empty_quote) = 2 \<and>
   ItemsList_rows (items empty_quote) = [No_items_row]"
proof -
  have 1: "items empty_quote = []" and 2: "discount empty_quote = 0"
    by (simp_all add: empty_quote_def)
  show ?thesis
    using empty_quote_totals_zero_and_empty_tbody [OF 1 2] by simp
qed


end
